theory Spec2Isabelle
  imports Complex_Main "HOL-Library.Word"
begin

section \<open>LeatherPatcher: pedal-driven stepper controller (LeatherPatcher.ino)\<close>

text \<open>
  The sketch runs on an Arduino Nano (ATmega328P): \<open>unsigned long\<close> is a 32-bit word
  whose subtraction wraps, \<open>int\<close> has 16 bits. The \<open>#define\<close>d settings of the
  USER CONFIGURATION section are the fields of \<open>config\<close>; \<open>default_config\<close> holds
  the values of the source. On this target \<open>float\<close> and \<open>double\<close> are both the IEEE 754
  binary32 format. A floating-point value is a real number or one of the non-finite
  results (infinities, NaN) that a division by zero, an overflow or a logarithm of a
  non-positive number produces. Every floating-point operation rounds its result to
  binary32 (\<open>f32\<close>, to nearest, ties to even). Sample values and count settings are
  mathematical integers: they are ADC counts (0 to 1023), far from the bounds of \<open>int\<close>
  and exact as \<open>float\<close>; the width of \<open>int\<close> and \<open>long\<close> is modelled where a value is
  converted to them.
\<close>

type_synonym ulong = "32 word"

record config =
  MAX_SPEED_SPS :: int
  MAX_ACCEL_SPS2 :: int
  ANALOG_MIN_COUNTS :: int
  ANALOG_MAX_COUNTS :: int
  ANALOG_REVERSED :: bool
  ANALOG_DEADBAND_COUNTS :: int
  HOLD_BAND_COUNTS :: int
  ANALOG_FILTER_SAMPLES :: nat
  CONTROL_HZ :: int
  INPUT_CURVE :: int
  LOG_CURVE_K :: real
  ARM_DELAY_MS :: int
  DISABLE_DELAY_MS :: int

definition default_config :: config where
  "default_config =
     \<lparr> MAX_SPEED_SPS = 4000, MAX_ACCEL_SPS2 = 800,
       ANALOG_MIN_COUNTS = 10, ANALOG_MAX_COUNTS = 1010,
       ANALOG_REVERSED = False,
       ANALOG_DEADBAND_COUNTS = 20, HOLD_BAND_COUNTS = 60,
       ANALOG_FILTER_SAMPLES = 8,
       CONTROL_HZ = 100,
       INPUT_CURVE = 2, LOG_CURVE_K = 20,
       ARM_DELAY_MS = 500, DISABLE_DELAY_MS = 100 \<rparr>"

subsection \<open>Floating-point values\<close>

datatype fl = Fin real | PInf | NInf | NaN

text \<open>Rounding of a real number to binary32: 24 significant bits, exponents from -126
  (below, the subnormal numbers keep the spacing \<open>2^-149\<close>), to nearest with ties to
  even, overflow to infinity.\<close>

definition pow2 :: "int \<Rightarrow> real" where
  "pow2 i = (if 0 \<le> i then 2 ^ nat i else 1 / 2 ^ nat (- i))"

definition round_even :: "real \<Rightarrow> int" where
  "round_even m =
     (let f = \<lfloor>m\<rfloor> in
      if m - of_int f < 1 / 2 then f
      else if 1 / 2 < m - of_int f then f + 1
      else if even f then f else f + 1)"

definition f32_exponent :: "real \<Rightarrow> int" where
  "f32_exponent x = max \<lfloor>log 2 \<bar>x\<bar>\<rfloor> (- 126)"

definition f32_val :: "real \<Rightarrow> real" where
  "f32_val x =
     of_int (round_even (x / pow2 (f32_exponent x - 23))) * pow2 (f32_exponent x - 23)"

definition f32 :: "real \<Rightarrow> fl" where
  "f32 x =
     (if x = 0 then Fin 0
      else if 2 ^ 128 \<le> \<bar>f32_val x\<bar> then (if 0 < x then PInf else NInf)
      else Fin (f32_val x))"

text \<open>The rounding of a result that may already be non-finite.\<close>

fun round_fl :: "fl \<Rightarrow> fl" where
  "round_fl (Fin a) = f32 a"
| "round_fl PInf = PInf"
| "round_fl NInf = NInf"
| "round_fl NaN = NaN"

text \<open>The exact quotient as IEEE 754 defines it on finite and non-finite operands (zeros
  taken as positive: no operand of the sketch is a negative zero).\<close>

fun fdiv :: "fl \<Rightarrow> fl \<Rightarrow> fl" where
  "fdiv NaN _ = NaN"
| "fdiv _ NaN = NaN"
| "fdiv (Fin a) (Fin b) =
     (if b \<noteq> 0 then Fin (a / b)
      else if a = 0 then NaN else if 0 < a then PInf else NInf)"
| "fdiv (Fin a) PInf = Fin 0"
| "fdiv (Fin a) NInf = Fin 0"
| "fdiv PInf (Fin b) = (if 0 \<le> b then PInf else NInf)"
| "fdiv NInf (Fin b) = (if 0 \<le> b then NInf else PInf)"
| "fdiv PInf PInf = NaN"
| "fdiv PInf NInf = NaN"
| "fdiv NInf PInf = NaN"
| "fdiv NInf NInf = NaN"

text \<open>The exact difference \<open>a - u\<close> for a finite \<open>a\<close>.\<close>

fun fsub_from :: "real \<Rightarrow> fl \<Rightarrow> fl" where
  "fsub_from a (Fin b) = Fin (a - b)"
| "fsub_from a PInf = NInf"
| "fsub_from a NInf = PInf"
| "fsub_from a NaN = NaN"

text \<open>\<open>u < c\<close> and \<open>u > c\<close> against a finite constant; every comparison with NaN is false.\<close>

fun flt_const :: "fl \<Rightarrow> real \<Rightarrow> bool" where
  "flt_const (Fin a) c = (a < c)"
| "flt_const NInf c = True"
| "flt_const PInf c = False"
| "flt_const NaN c = False"

fun fgt_const :: "fl \<Rightarrow> real \<Rightarrow> bool" where
  "fgt_const (Fin a) c = (c < a)"
| "fgt_const PInf c = True"
| "fgt_const NInf c = False"
| "fgt_const NaN c = False"

text \<open>\<open>c + u\<close> for a finite \<open>c\<close>, rounded.\<close>

fun fadd_const :: "real \<Rightarrow> fl \<Rightarrow> fl" where
  "fadd_const c (Fin a) = f32 (c + a)"
| "fadd_const c PInf = PInf"
| "fadd_const c NInf = NInf"
| "fadd_const c NaN = NaN"

text \<open>The C library's \<open>log\<close>, a function outside the sketch: taken as the natural
  logarithm rounded to binary32, with the special values of the C standard.\<close>

fun flog :: "fl \<Rightarrow> fl" where
  "flog (Fin x) = (if 0 < x then f32 (ln x) else if x = 0 then NInf else NaN)"
| "flog PInf = PInf"
| "flog NInf = NaN"
| "flog NaN = NaN"

text \<open>A finite value, or nothing.\<close>

fun finite_value :: "fl \<Rightarrow> real option" where
  "finite_value (Fin a) = Some a"
| "finite_value _ = None"

subsection \<open>Helper functions\<close>

definition normalizeADC :: "config \<Rightarrow> int \<Rightarrow> fl" where
  "normalizeADC cfg raw =
     (let raw1 = (if raw < ANALOG_MIN_COUNTS cfg then ANALOG_MIN_COUNTS cfg else raw);
          raw2 = (if raw1 > ANALOG_MAX_COUNTS cfg then ANALOG_MAX_COUNTS cfg else raw1);
          u0 = round_fl (fdiv (Fin (of_int (raw2 - ANALOG_MIN_COUNTS cfg)))
                              (Fin (of_int (ANALOG_MAX_COUNTS cfg - ANALOG_MIN_COUNTS cfg))));
          u1 = (if ANALOG_REVERSED cfg then round_fl (fsub_from 1 u0) else u0);
          u2 = (if flt_const u1 0 then Fin 0 else u1);
          u3 = (if fgt_const u2 1 then Fin 1 else u2)
      in u3)"

text \<open>\<open>LOG_CURVE_K\<close> is the value of the constant as a \<open>float\<close>.\<close>

definition applyCurve :: "config \<Rightarrow> real \<Rightarrow> fl" where
  "applyCurve cfg u =
     (if INPUT_CURVE cfg = 1 then f32 (u * u)
      else if INPUT_CURVE cfg = 2 then
        (let k = LOG_CURVE_K cfg
         in round_fl (fdiv (flog (fadd_const 1 (f32 (k * u)))) (flog (f32 (1 + k)))))
      else Fin u)"

subsection \<open>Controller state and effects\<close>

text \<open>The globals of the sketch, the function-static \<open>virtualPos\<close>, and the level last
  written to the ENABLE pin (\<open>True\<close> is HIGH: driver disabled) and to the LED pin.\<close>

record state =
  armed :: bool
  armStart :: ulong
  disableStart :: ulong
  lastControlUpdate :: ulong
  lastLED :: ulong
  ledState :: bool
  virtualPos :: real
  enablePin :: bool
  ledPin :: bool

text \<open>Calls into the hardware and the AccelStepper library, in the order made.\<close>

datatype effect =
    DigitalWriteEnable bool
  | DigitalWriteLed bool
  | StepperStop
  | StepperSetMaxSpeed int
  | StepperSetAcceleration int
  | StepperMoveTo int
  | StepperMoveToCurrentPosition
  | StepperRun

text \<open>State after \<open>setup()\<close>: ENABLE written HIGH, everything else as initialised.\<close>

definition init_state :: state where
  "init_state =
     \<lparr> armed = False, armStart = 0, disableStart = 0, lastControlUpdate = 0,
       lastLED = 0, ledState = False, virtualPos = 0, enablePin = True, ledPin = False \<rparr>"

text \<open>\<open>1000UL / CONTROL_HZ\<close>, an unsigned division (\<open>CONTROL_HZ\<close> is not 0 in a sketch
  that compiles without a division by zero).\<close>

definition controlInterval :: "config \<Rightarrow> ulong" where
  "controlInterval cfg = 1000 div word_of_int (CONTROL_HZ cfg)"

text \<open>\<open>(int)ARM_DELAY_MS\<close>: conversion to the 16-bit \<open>int\<close> of the target.\<close>

definition int_cast :: "int \<Rightarrow> int" where
  "int_cast x = sint (word_of_int x :: 16 word)"

text \<open>\<open>max((int)ARM_DELAY_MS, 250)\<close>, converted to \<open>unsigned long\<close> for the comparison.\<close>

definition armThreshold :: "config \<Rightarrow> ulong" where
  "armThreshold cfg = word_of_int (max (int_cast (ARM_DELAY_MS cfg)) 250)"

definition updateLED :: "state \<Rightarrow> ulong \<Rightarrow> bool \<Rightarrow> bool \<Rightarrow> bool \<Rightarrow> state \<times> effect list" where
  "updateLED s now running inHold inDeadband =
     (if \<not> armed s then
        (if 500 \<le> now - lastLED s then
           (s\<lparr>ledState := \<not> ledState s, ledPin := \<not> ledState s, lastLED := now\<rparr>,
            [DigitalWriteLed (\<not> ledState s)])
         else (s, []))
      else if running then (s\<lparr>ledPin := True\<rparr>, [DigitalWriteLed True])
      else if inHold then
        (if 250 \<le> now - lastLED s then
           (s\<lparr>ledState := \<not> ledState s, ledPin := \<not> ledState s, lastLED := now\<rparr>,
            [DigitalWriteLed (\<not> ledState s)])
         else (s, []))
      else if inDeadband then
        (let t = now mod 1000 in
         if t < 100 \<or> (200 \<le> t \<and> t < 300)
         then (s\<lparr>ledPin := True\<rparr>, [DigitalWriteLed True])
         else (s\<lparr>ledPin := False\<rparr>, [DigitalWriteLed False]))
      else (s\<lparr>ledPin := False\<rparr>, [DigitalWriteLed False]))"

subsection \<open>The control loop\<close>

text \<open>Conversion of a floating-point value to a signed integer of \<open>n\<close> bits: the
  fraction is discarded (truncation towards zero); the behaviour is undefined
  (\<open>None\<close>) when the result does not fit.\<close>

definition trunc_real :: "real \<Rightarrow> int" where
  "trunc_real x = (if 0 \<le> x then \<lfloor>x\<rfloor> else \<lceil>x\<rceil>)"

definition to_signed :: "nat \<Rightarrow> real \<Rightarrow> int option" where
  "to_signed n x =
     (if - (2 ^ (n - 1)) \<le> trunc_real x \<and> trunc_real x < 2 ^ (n - 1)
      then Some (trunc_real x) else None)"

text \<open>The locals \<open>inDeadband\<close>, \<open>inHold\<close> and \<open>running\<close> of \<open>loop()\<close>.\<close>

record flags =
  inDeadband :: bool
  inHold :: bool
  running :: bool

definition no_flags :: flags where
  "no_flags = \<lparr> inDeadband = False, inHold = False, running = False \<rparr>"

text \<open>Lines 283 to 290: the value of \<open>virtualPos\<close> after
  \<open>virtualPos += applyCurve(u) * MAX_SPEED_SPS / CONTROL_HZ\<close>. The two settings are
  converted to \<open>float\<close>, and the product, the quotient and the sum are each rounded.
  \<open>None\<close>: the new value is not finite (every non-finite intermediate result, a
  division by a zero \<open>CONTROL_HZ\<close> included, makes it so), and its conversion to
  \<open>long\<close> is undefined.\<close>

definition integrate :: "config \<Rightarrow> real \<Rightarrow> real \<Rightarrow> real option" where
  "integrate cfg vpos u =
     (case finite_value (applyCurve cfg u) of None \<Rightarrow> None | Some curved \<Rightarrow>
      case finite_value (f32 (of_int (MAX_SPEED_SPS cfg))) of None \<Rightarrow> None | Some maxSpeed \<Rightarrow>
      case finite_value (f32 (curved * maxSpeed)) of None \<Rightarrow> None | Some targetSpeed \<Rightarrow>
      case finite_value (f32 (of_int (CONTROL_HZ cfg))) of None \<Rightarrow> None | Some hz \<Rightarrow>
      if hz = 0 then None else
      case finite_value (f32 (targetSpeed / hz)) of None \<Rightarrow> None | Some step \<Rightarrow>
      finite_value (f32 (vpos + step)))"

text \<open>The three branches on \<open>scaledADC\<close> (lines 260 to 292).\<close>

definition zone_update ::
  "config \<Rightarrow> state \<Rightarrow> ulong \<Rightarrow> real \<Rightarrow> int \<Rightarrow> (state \<times> effect list \<times> flags) option" where
  "zone_update cfg s now u scaledADC =
     (if scaledADC \<le> ANALOG_DEADBAND_COUNTS cfg then
        (if disableStart s = 0 then
           Some (s\<lparr>disableStart := now\<rparr>, [], no_flags\<lparr>inDeadband := True\<rparr>)
         else if word_of_int (DISABLE_DELAY_MS cfg) \<le> now - disableStart s then
           Some (s\<lparr>enablePin := True\<rparr>, [DigitalWriteEnable True, StepperStop],
                 no_flags\<lparr>inDeadband := True\<rparr>)
         else Some (s, [], no_flags\<lparr>inDeadband := True\<rparr>))
      else if scaledADC \<le> HOLD_BAND_COUNTS cfg then
        Some (s\<lparr>disableStart := 0, enablePin := False\<rparr>,
              [DigitalWriteEnable False, StepperMoveToCurrentPosition],
              no_flags\<lparr>inHold := True\<rparr>)
      else
        (case integrate cfg (virtualPos s) u of
           Some vp \<Rightarrow>
             (case to_signed 32 vp of
                Some target \<Rightarrow>
                  Some (s\<lparr>disableStart := 0, enablePin := False, virtualPos := vp\<rparr>,
                        [DigitalWriteEnable False,
                         StepperSetMaxSpeed (MAX_SPEED_SPS cfg),
                         StepperSetAcceleration (MAX_ACCEL_SPS2 cfg),
                         StepperMoveTo target],
                        no_flags\<lparr>running := True\<rparr>)
              | None \<Rightarrow> None)
         | None \<Rightarrow> None))"

text \<open>\<open>(int)(u * 1023)\<close>: the product is rounded, then converted.\<close>

definition scale_counts :: "real \<Rightarrow> int option" where
  "scale_counts u = (case f32 (u * 1023) of Fin p \<Rightarrow> to_signed 16 p | _ \<Rightarrow> None)"

text \<open>The body of the rate-limited block (lines 255 to 292).\<close>

definition control_update ::
  "config \<Rightarrow> state \<Rightarrow> ulong \<Rightarrow> int \<Rightarrow> (state \<times> effect list \<times> flags) option" where
  "control_update cfg s now filteredADC =
     (case normalizeADC cfg filteredADC of
        Fin u \<Rightarrow>
          (case scale_counts u of
             Some scaledADC \<Rightarrow> zone_update cfg (s\<lparr>lastControlUpdate := now\<rparr>) now u scaledADC
           | None \<Rightarrow> None)
      | _ \<Rightarrow> None)"

text \<open>The arming block (lines 233 to 247), run while \<open>armed\<close> is false.\<close>

definition arming_step :: "config \<Rightarrow> state \<Rightarrow> ulong \<Rightarrow> int \<Rightarrow> state \<times> effect list" where
  "arming_step cfg s now rawADC =
     (let s1 = (if rawADC \<le> ANALOG_DEADBAND_COUNTS cfg then
                  (if armStart s = 0 then s\<lparr>armStart := now\<rparr>
                   else if armThreshold cfg \<le> now - armStart s then s\<lparr>armed := True\<rparr>
                   else s)
                else s\<lparr>armStart := 0\<rparr>);
          s2 = s1\<lparr>enablePin := True\<rparr>;
          (s3, led) = updateLED s2 now False False False
      in (s3, [StepperStop, DigitalWriteEnable True] @ led))"

text \<open>An iteration of \<open>loop()\<close> from line 232 on, after the sample was read and
  filtered. \<open>now\<close> is the value of \<open>millis()\<close>, \<open>rawADC\<close> the sample read,
  \<open>filteredADC\<close> the truncated average of the filter. \<open>None\<close>: undefined behaviour in
  C (a non-finite or too large floating-point value converted to an integer).\<close>

definition loop_body :: "config \<Rightarrow> state \<Rightarrow> ulong \<Rightarrow> int \<Rightarrow> int \<Rightarrow> (state \<times> effect list) option" where
  "loop_body cfg s now rawADC filteredADC =
     (if \<not> armed s then Some (arming_step cfg s now rawADC)
      else
        (case (if controlInterval cfg \<le> now - lastControlUpdate s
               then control_update cfg s now filteredADC
               else Some (s, [], no_flags)) of
           None \<Rightarrow> None
         | Some (s1, es, f) \<Rightarrow>
             (let (s2, led) = updateLED s1 now (running f) (inHold f) (inDeadband f)
              in Some (s2, es @ [StepperRun] @ led))))"

text \<open>Successive iterations, each given the filter's result as well; an input is
  \<open>(now, rawADC, filteredADC)\<close>.\<close>

fun run :: "config \<Rightarrow> state \<Rightarrow> (ulong \<times> int \<times> int) list \<Rightarrow> state option" where
  "run cfg s [] = Some s"
| "run cfg s ((now, rawADC, filteredADC) # xs) =
     (case loop_body cfg s now rawADC filteredADC of
        None \<Rightarrow> None
      | Some (s', es) \<Rightarrow> run cfg s' xs)"

subsection \<open>Sampling and filtering\<close>

text \<open>Modelled from the spec: the RunningAverage library is not part of the sketch; the
  specification (4.1) describes it as a buffer of the last N raw samples whose result is
  the arithmetic mean of the buffer contents. The buffer is kept newest first; the
  mean is a \<open>float\<close>, and \<open>getAverage\<close> of an empty buffer is NaN.\<close>

definition filter_addValue :: "nat \<Rightarrow> int \<Rightarrow> int list \<Rightarrow> int list" where
  "filter_addValue n x buf = take n (x # buf)"

definition filter_getAverage :: "int list \<Rightarrow> fl" where
  "filter_getAverage buf =
     (if buf = [] then NaN else f32 (of_int (sum_list buf) / of_nat (length buf)))"

text \<open>The controller: the state of the sketch and the buffer of the filter.\<close>

record controller =
  core :: state
  filterBuf :: "int list"

text \<open>One iteration of \<open>loop()\<close> (lines 224 to 300): the sample \<open>rawADC\<close> is read and
  added to the filter, the average is converted to \<open>int\<close>, and the iteration goes on as
  \<open>loop_body\<close>. \<open>now\<close> is the value of \<open>millis()\<close>.\<close>

definition loop :: "config \<Rightarrow> controller \<Rightarrow> ulong \<Rightarrow> int \<Rightarrow> (controller \<times> effect list) option" where
  "loop cfg c now rawADC =
     (let buf = filter_addValue (ANALOG_FILTER_SAMPLES cfg) rawADC (filterBuf c)
      in case finite_value (filter_getAverage buf) of
           None \<Rightarrow> None
         | Some average \<Rightarrow>
             (case to_signed 16 average of
                None \<Rightarrow> None
              | Some filteredADC \<Rightarrow>
                  (case loop_body cfg (core c) now rawADC filteredADC of
                     None \<Rightarrow> None
                   | Some (s', es) \<Rightarrow> Some (\<lparr> core = s', filterBuf = buf \<rparr>, es))))"

subsection \<open>Notions used in the statements\<close>

datatype zone = STOP | HOLD | THROTTLE

text \<open>The zone that the flags handed to \<open>updateLED\<close> stand for.\<close>

definition zone_of :: "flags \<Rightarrow> zone option" where
  "zone_of f =
     (if inDeadband f \<and> \<not> inHold f \<and> \<not> running f then Some STOP
      else if \<not> inDeadband f \<and> inHold f \<and> \<not> running f then Some HOLD
      else if \<not> inDeadband f \<and> \<not> inHold f \<and> running f then Some THROTTLE
      else None)"

text \<open>The three-zone policy in the words of the specification: input at most the
  deadband is STOP, input above the deadband and at most the hold band is HOLD,
  anything else is THROTTLE.\<close>

definition classify_spec :: "int \<Rightarrow> int \<Rightarrow> int \<Rightarrow> zone" where
  "classify_spec deadband holdBand input =
     (if input \<le> deadband then STOP
      else if deadband < input \<and> input \<le> holdBand then HOLD
      else THROTTLE)"

text \<open>The value of the local \<open>scaledADC\<close> that a control update computes from the
  filtered sample (\<open>None\<close>: the conversion to \<open>int\<close> is undefined).\<close>

definition scaledADC_of :: "config \<Rightarrow> int \<Rightarrow> int option" where
  "scaledADC_of cfg filteredADC =
     (case normalizeADC cfg filteredADC of
        Fin u \<Rightarrow> scale_counts u
      | _ \<Rightarrow> None)"

text \<open>Every input of the list is due for a control update, given the time \<open>prev\<close> of
  the update before it.\<close>

fun control_ticks :: "config \<Rightarrow> ulong \<Rightarrow> (ulong \<times> int \<times> int) list \<Rightarrow> bool" where
  "control_ticks cfg prev [] = True"
| "control_ticks cfg prev ((now, rawADC, filteredADC) # xs) =
     (controlInterval cfg \<le> now - prev \<and> control_ticks cfg now xs)"

text \<open>A train of \<open>n\<close> iterations 10 ms apart, the first 10 ms after \<open>t\<close>, with the
  pedal fully pressed (raw sample 1023, filtered value 1010).\<close>

fun full_pedal_train :: "ulong \<Rightarrow> nat \<Rightarrow> (ulong \<times> int \<times> int) list" where
  "full_pedal_train t 0 = []"
| "full_pedal_train t (Suc n) = (t + 10, 1023, 1010) # full_pedal_train (t + 10) n"

text \<open>The states of the sketch that \<open>loop()\<close> can be in: the state after \<open>setup()\<close>
  and every state that an iteration returns from one of them, whatever the filter
  yields.\<close>

inductive reachable :: "config \<Rightarrow> state \<Rightarrow> bool" for cfg :: config where
  reachable_init: "reachable cfg init_state"
| reachable_loop:
    "reachable cfg s \<Longrightarrow> loop_body cfg s now rawADC filteredADC = Some (s', es) \<Longrightarrow> reachable cfg s'"

section \<open>Basic facts\<close>

lemma default_config_simps:
  "MAX_SPEED_SPS default_config = 4000" "MAX_ACCEL_SPS2 default_config = 800"
  "ANALOG_MIN_COUNTS default_config = 10" "ANALOG_MAX_COUNTS default_config = 1010"
  "ANALOG_REVERSED default_config = False"
  "ANALOG_DEADBAND_COUNTS default_config = 20" "HOLD_BAND_COUNTS default_config = 60"
  "ANALOG_FILTER_SAMPLES default_config = 8"
  "CONTROL_HZ default_config = 100" "INPUT_CURVE default_config = 2"
  "LOG_CURVE_K default_config = 20" "ARM_DELAY_MS default_config = 500"
  "DISABLE_DELAY_MS default_config = 100"
  by (simp_all add: default_config_def)

subsection \<open>Rounding to binary32\<close>

lemma pow2_powr: "pow2 i = 2 powr of_int i"
  by (simp add: pow2_def powr_realpow [symmetric] powr_minus field_simps)

lemma pow2_pos: "0 < pow2 i"
  by (simp add: pow2_def)

lemma pow2_add: "pow2 (i + j) = pow2 i * pow2 j"
  by (simp add: pow2_powr powr_add)

lemma pow2_mono: "i \<le> j \<Longrightarrow> pow2 i \<le> pow2 j"
  by (simp add: pow2_powr)

lemma pow2_nat: "pow2 (int n) = 2 ^ n"
  by (simp add: pow2_def)

lemma pow2_numeral: "pow2 (numeral n) = 2 ^ numeral n" "pow2 0 = 1"
  by (simp_all add: pow2_def)

lemma exponent_bounds:
  assumes "x \<noteq> 0"
  shows "pow2 \<lfloor>log 2 \<bar>x\<bar>\<rfloor> \<le> \<bar>x\<bar>" "\<bar>x\<bar> < pow2 (\<lfloor>log 2 \<bar>x\<bar>\<rfloor> + 1)"
proof -
  have pos: "0 < \<bar>x\<bar>" using assms by simp
  have "of_int \<lfloor>log 2 \<bar>x\<bar>\<rfloor> \<le> log 2 \<bar>x\<bar>" by simp
  then have "2 powr of_int \<lfloor>log 2 \<bar>x\<bar>\<rfloor> \<le> 2 powr log 2 \<bar>x\<bar>" by simp
  then show "pow2 \<lfloor>log 2 \<bar>x\<bar>\<rfloor> \<le> \<bar>x\<bar>" using pos by (simp add: pow2_powr)
  have "log 2 \<bar>x\<bar> < of_int (\<lfloor>log 2 \<bar>x\<bar>\<rfloor> + 1)" by linarith
  then have "2 powr log 2 \<bar>x\<bar> < 2 powr of_int (\<lfloor>log 2 \<bar>x\<bar>\<rfloor> + 1)" by simp
  then show "\<bar>x\<bar> < pow2 (\<lfloor>log 2 \<bar>x\<bar>\<rfloor> + 1)" using pos by (simp add: pow2_powr)
qed

lemma exponent_unique:
  assumes "pow2 e \<le> \<bar>x\<bar>" "\<bar>x\<bar> < pow2 (e + 1)"
  shows "\<lfloor>log 2 \<bar>x\<bar>\<rfloor> = e"
proof -
  have pos: "0 < \<bar>x\<bar>" using assms(1) pow2_pos [of e] by linarith
  have "of_int e \<le> log 2 \<bar>x\<bar>"
    using assms(1) pos by (simp add: pow2_powr le_log_iff)
  moreover have "log 2 \<bar>x\<bar> < of_int (e + 1)"
    using assms(2) pos by (simp add: pow2_powr log_less_iff)
  ultimately show ?thesis by linarith
qed

lemma round_even_of_int: "round_even (of_int k) = k"
  by (simp add: round_even_def)

lemma round_even_floor: "\<lfloor>m\<rfloor> \<le> round_even m" "round_even m \<le> \<lfloor>m\<rfloor> + 1"
  by (simp_all add: round_even_def Let_def)

lemma round_even_mono:
  assumes "a \<le> b"
  shows "round_even a \<le> round_even b"
proof (cases "\<lfloor>a\<rfloor> = \<lfloor>b\<rfloor>")
  case True
  then have "a - of_int \<lfloor>a\<rfloor> \<le> b - of_int \<lfloor>b\<rfloor>" using assms by simp
  then show ?thesis using True by (auto simp: round_even_def Let_def)
next
  case False
  then have "\<lfloor>a\<rfloor> + 1 \<le> \<lfloor>b\<rfloor>" using floor_mono [OF assms] by linarith
  then show ?thesis using round_even_floor(2) [of a] round_even_floor(1) [of b] by linarith
qed

lemma round_even_ge: "of_int k \<le> a \<Longrightarrow> k \<le> round_even a"
  using round_even_mono [of "of_int k" a] by (simp add: round_even_of_int)

lemma round_even_le: "a \<le> of_int k \<Longrightarrow> round_even a \<le> k"
  using round_even_mono [of a "of_int k"] by (simp add: round_even_of_int)


lemma f32_exponent_mono: "0 < x \<Longrightarrow> x \<le> y \<Longrightarrow> f32_exponent x \<le> f32_exponent y"
  unfolding f32_exponent_def by (intro max.mono floor_mono) (simp_all add: log_le_cancel_iff)

lemma f32_exponent_upper: "x \<noteq> 0 \<Longrightarrow> \<bar>x\<bar> < pow2 (f32_exponent x + 1)"
proof -
  assume "x \<noteq> 0"
  from exponent_bounds(2) [OF this]
  have "\<bar>x\<bar> < pow2 (\<lfloor>log 2 \<bar>x\<bar>\<rfloor> + 1)" .
  also have "\<dots> \<le> pow2 (f32_exponent x + 1)"
    by (rule pow2_mono) (simp add: f32_exponent_def)
  finally show ?thesis .
qed

lemma f32_exponent_lower:
  "x \<noteq> 0 \<Longrightarrow> - 126 < f32_exponent x \<Longrightarrow> pow2 (f32_exponent x) \<le> \<bar>x\<bar>"
  using exponent_bounds(1) [of x] by (simp add: f32_exponent_def max_def split: if_splits)

lemma pow2_split: "pow2 e = pow2 n * pow2 (e - n)"
  using pow2_add [of n "e - n"] by simp

lemma f32_val_nonneg: "0 \<le> x \<Longrightarrow> 0 \<le> f32_val x"
proof -
  assume "0 \<le> x"
  then have "0 \<le> x / pow2 (f32_exponent x - 23)" using pow2_pos by (simp add: less_imp_le)
  then have "0 \<le> round_even (x / pow2 (f32_exponent x - 23))"
    using round_even_ge [of 0] by simp
  then show ?thesis using pow2_pos [of "f32_exponent x - 23"] by (simp add: f32_val_def)
qed

lemma f32_val_upper:
  assumes "0 < x"
  shows "f32_val x \<le> pow2 (f32_exponent x + 1)"
proof -
  let ?e = "f32_exponent x" and ?u = "pow2 (f32_exponent x - 23)"
  have u: "0 < ?u" by (rule pow2_pos)
  have split: "pow2 (?e + 1) = 2 ^ 24 * ?u"
    using pow2_add [of 24 "?e - 23"] by (simp add: pow2_numeral add.commute)
  have "x < pow2 (?e + 1)" using f32_exponent_upper [of x] assms by simp
  then have "x / ?u \<le> 2 ^ 24" using u split by (simp add: field_simps)
  then have "x / ?u \<le> of_int (2 ^ 24)" by simp
  then have "round_even (x / ?u) \<le> 2 ^ 24" by (rule round_even_le)
  then have "of_int (round_even (x / ?u)) \<le> (of_int (2 ^ 24) :: real)"
    by (simp only: of_int_le_iff)
  then have "of_int (round_even (x / ?u)) \<le> (2 ^ 24 :: real)" by simp
  then show ?thesis using u unfolding f32_val_def split by (simp add: mult_right_mono)
qed

lemma f32_val_lower:
  assumes "0 < x" "- 126 < f32_exponent x"
  shows "pow2 (f32_exponent x) \<le> f32_val x"
proof -
  let ?e = "f32_exponent x" and ?u = "pow2 (f32_exponent x - 23)"
  have u: "0 < ?u" by (rule pow2_pos)
  have split: "pow2 ?e = 2 ^ 23 * ?u"
    using pow2_add [of 23 "?e - 23"] by (simp add: pow2_numeral)
  have "pow2 ?e \<le> x" using f32_exponent_lower [of x] assms by simp
  then have "2 ^ 23 \<le> x / ?u" using u split by (simp add: field_simps)
  then have "of_int (2 ^ 23) \<le> x / ?u" by simp
  then have "2 ^ 23 \<le> round_even (x / ?u)" by (rule round_even_ge)
  then have "(of_int (2 ^ 23) :: real) \<le> of_int (round_even (x / ?u))"
    by (simp only: of_int_le_iff)
  then have "(2 ^ 23 :: real) \<le> of_int (round_even (x / ?u))" by simp
  then show ?thesis using u unfolding f32_val_def split by (simp add: mult_right_mono)
qed

lemma f32_val_mono:
  assumes "0 < x" "x \<le> y"
  shows "f32_val x \<le> f32_val y"
proof (cases "f32_exponent x = f32_exponent y")
  case True
  let ?u = "pow2 (f32_exponent y - 23)"
  have u: "0 < ?u" by (rule pow2_pos)
  have "x / ?u \<le> y / ?u" using assms u by (simp add: divide_right_mono)
  then have "round_even (x / ?u) \<le> round_even (y / ?u)" by (rule round_even_mono)
  then have "(of_int (round_even (x / ?u)) :: real) \<le> of_int (round_even (y / ?u))" by simp
  then show ?thesis using u True by (simp add: f32_val_def mult_right_mono)
next
  case False
  with f32_exponent_mono [OF assms] have lt: "f32_exponent x + 1 \<le> f32_exponent y" by simp
  have y: "0 < y" using assms by simp
  have "- 126 \<le> f32_exponent x" by (simp add: f32_exponent_def)
  with lt have "- 126 < f32_exponent y" by simp
  from f32_val_lower [OF y this] have "pow2 (f32_exponent y) \<le> f32_val y" .
  moreover have "f32_val x \<le> pow2 (f32_exponent x + 1)" using assms(1) by (rule f32_val_upper)
  moreover have "pow2 (f32_exponent x + 1) \<le> pow2 (f32_exponent y)" using lt by (rule pow2_mono)
  ultimately show ?thesis by linarith
qed

text \<open>Rounding is monotone on the non-negative reals, and a finite result above gives a
  finite result below.\<close>

lemma f32_mono:
  assumes "0 \<le> x" "x \<le> y" "f32 y = Fin b"
  shows "\<exists>a. f32 x = Fin a \<and> 0 \<le> a \<and> a \<le> b"
proof (cases "x = 0")
  case True
  have "0 \<le> b"
    using assms f32_val_nonneg [of y] by (auto simp: f32_def split: if_splits)
  then show ?thesis using True by (simp add: f32_def)
next
  case False
  then have x: "0 < x" and y: "0 < y" using assms by simp_all
  from assms(3) y have b: "b = f32_val y" "\<not> 2 ^ 128 \<le> \<bar>f32_val y\<bar>"
    by (auto simp: f32_def split: if_splits)
  have le: "f32_val x \<le> f32_val y" using x assms(2) by (rule f32_val_mono)
  have nn: "0 \<le> f32_val x" using x by (simp add: f32_val_nonneg)
  then have "\<not> 2 ^ 128 \<le> \<bar>f32_val x\<bar>" using le b(2) by simp
  then show ?thesis using x le nn b(1) by (simp add: f32_def)
qed

lemma f32_finite:
  assumes "x \<noteq> 0" "\<bar>f32_val x\<bar> < 2 ^ 128"
  shows "f32 x = Fin (f32_val x)"
  using assms by (simp add: f32_def)

lemma f32_0: "f32 0 = Fin 0"
  by (simp add: f32_def)

lemma f32_exponent_eq:
  assumes "pow2 e \<le> \<bar>x\<bar>" "\<bar>x\<bar> < pow2 (e + 1)" "- 126 \<le> e"
  shows "f32_exponent x = e"
  using exponent_unique [OF assms(1,2)] assms(3) by (simp add: f32_exponent_def)

text \<open>Evaluation of the rounding, given the binade of the argument.\<close>

lemma f32_eval:
  assumes "pow2 e \<le> \<bar>x\<bar>" "\<bar>x\<bar> < pow2 (e + 1)" "- 126 \<le> e"
    "round_even (x / pow2 (e - 23)) = m" "\<bar>of_int m * pow2 (e - 23)\<bar> < 2 ^ 128"
  shows "f32 x = Fin (of_int m * pow2 (e - 23))"
proof -
  have "x \<noteq> 0" using assms(1) pow2_pos [of e] by auto
  moreover have "f32_val x = of_int m * pow2 (e - 23)"
    by (simp add: f32_val_def f32_exponent_eq [OF assms(1-3)] assms(4))
  ultimately show ?thesis using assms(5) by (simp add: f32_def)
qed

text \<open>A number with at most 24 significant bits is its own rounding.\<close>

lemma f32_exact:
  assumes "0 < n" "n < 2 ^ 24" "- 149 \<le> j" "j \<le> 103"
  shows "f32 (of_int n * pow2 j) = Fin (of_int n * pow2 j)"
proof -
  let ?x = "of_int n * pow2 j :: real"
  have x: "0 < ?x" using assms(1) pow2_pos [of j] by simp
  let ?e = "f32_exponent ?x"
  have "?x < 2 ^ 24 * pow2 j"
  proof -
    have "(of_int n :: real) < of_int (2 ^ 24)" using assms(2) by (simp only: of_int_less_iff)
    then show ?thesis using pow2_pos [of j] by simp
  qed
  also have "\<dots> = pow2 (j + 24)" using pow2_add [of j 24] by (simp add: pow2_numeral)
  finally have up: "?x < pow2 (j + 24)" .
  have e_le: "?e \<le> j + 23"
  proof -
    have "log 2 ?x < of_int (j + 24)"
      using up x by (simp add: pow2_powr log_less_iff)
    then have "\<lfloor>log 2 \<bar>?x\<bar>\<rfloor> \<le> j + 23" using x by (simp add: floor_le_iff)
    then show ?thesis using assms(3) by (simp add: f32_exponent_def)
  qed
  define d where "d = nat (j + 23 - ?e)"
  have d: "j - (?e - 23) = int d" using e_le by (simp add: d_def)
  have "?x / pow2 (?e - 23) = of_int n * pow2 (j - (?e - 23))"
    using pow2_add [of "?e - 23" "j - (?e - 23)"] pow2_pos [of "?e - 23"] by (simp add: field_simps)
  also have "\<dots> = of_int (n * 2 ^ d)" by (simp add: d pow2_nat)
  finally have q: "?x / pow2 (?e - 23) = of_int (n * 2 ^ d)" .
  have "f32_val ?x = of_int (n * 2 ^ d) * pow2 (?e - 23)"
    unfolding f32_val_def q round_even_of_int ..
  also have "\<dots> = ?x * (pow2 (int d) * pow2 (?e - 23) / pow2 j)"
    using pow2_pos [of j] by (simp add: pow2_nat)
  also have "pow2 (int d) * pow2 (?e - 23) = pow2 j"
  proof -
    have "int d + (?e - 23) = j" using d by simp
    then show ?thesis using pow2_add [of "int d" "?e - 23"] by simp
  qed
  finally have v: "f32_val ?x = ?x" using pow2_pos [of j] by simp
  have "?x < pow2 (j + 24)" by (rule up)
  also have "\<dots> \<le> pow2 127" using assms(4) by (intro pow2_mono) simp
  also have "\<dots> < 2 ^ 128" by (simp add: pow2_numeral)
  finally have b: "\<bar>f32_val ?x\<bar> < 2 ^ 128" using x v by simp
  have nz: "?x \<noteq> 0" using x by (rule less_imp_neq [symmetric])
  show ?thesis using f32_finite [OF nz b] v by simp
qed

lemma f32_of_int:
  assumes "0 \<le> n" "n < 2 ^ 24"
  shows "f32 (of_int n) = Fin (of_int n)"
proof (cases "n = 0")
  case True
  then show ?thesis by (simp add: f32_0)
next
  case False
  then show ?thesis using f32_exact [of n 0] assms by (simp add: pow2_numeral)
qed

lemma f32_numeral [simp]:
  "numeral n < (2 ^ 24 :: int) \<Longrightarrow> f32 (numeral n) = Fin (numeral n)"
  using f32_of_int [of "numeral n"] by simp

lemma f32_1 [simp]: "f32 1 = Fin 1"
  using f32_of_int [of 1] by simp

lemma f32_pow2:
  assumes "- 149 \<le> j" "j \<le> 103"
  shows "f32 (pow2 j) = Fin (pow2 j)"
  using f32_exact [of 1 j] assms by simp

text \<open>A value between 0 and a number that is its own rounding stays there.\<close>

lemma f32_bounded:
  assumes "0 \<le> x" "x \<le> b" "f32 b = Fin b"
  shows "\<exists>a. f32 x = Fin a \<and> 0 \<le> a \<and> a \<le> b"
  using assms by (rule f32_mono)

lemma f32_lower:
  assumes "0 \<le> c" "c \<le> x" "f32 c = Fin c" "f32 x = Fin a"
  shows "c \<le> a"
  using f32_mono [OF assms(1,2,4)] assms(3) by simp

lemma f32_one_plus_tiny: "f32 (1 + 1 / 2 ^ 30) = Fin 1"
proof -
  have r: "round_even ((1 + 1 / 2 ^ 30) / pow2 (0 - 23)) = 2 ^ 23"
    by (simp add: pow2_def round_even_def)
  have "f32 (1 + 1 / 2 ^ 30) = Fin (of_int (2 ^ 23) * pow2 (0 - 23))"
    by (rule f32_eval [OF _ _ _ r]) (simp_all add: pow2_def)
  then show ?thesis by (simp add: pow2_def)
qed

subsection \<open>The input curve\<close>

lemma ln_lower_24: "1 + 1 / 2 ^ 23 \<le> w \<Longrightarrow> 1 / 2 ^ 24 \<le> ln (w :: real)"
proof -
  assume w: "1 + 1 / 2 ^ 23 \<le> w"
  have "(1 / 2 ^ 23 :: real) - (1 / 2 ^ 23)\<^sup>2 \<le> ln (1 + 1 / 2 ^ 23)"
    by (rule ln_one_plus_pos_lower_bound) simp_all
  moreover have "(1 / 2 ^ 24 :: real) \<le> 1 / 2 ^ 23 - (1 / 2 ^ 23)\<^sup>2" by (simp add: power2_eq_square)
  moreover have "ln (1 + 1 / 2 ^ 23) \<le> ln w" using w by simp
  ultimately show ?thesis by linarith
qed

text \<open>The denominator of the logarithmic curve.\<close>

lemma log_curve_den:
  assumes "f32 k = Fin k" "1 / 2 ^ 23 \<le> k" "k \<le> 2 ^ 100"
  obtains w l where "f32 (1 + k) = Fin w" "1 \<le> w" "flog (Fin w) = Fin l" "0 < l"
proof -
  have p101: "f32 (2 ^ 101) = Fin (2 ^ 101)" using f32_pow2 [of 101] by (simp add: pow2_numeral)
  have "0 \<le> 1 + k" "1 + k \<le> 2 ^ 101" using assms by simp_all
  from f32_mono [OF this p101] obtain w where w: "f32 (1 + k) = Fin w" "0 \<le> w" "w \<le> 2 ^ 101"
    by blast
  have e: "f32 (1 + 1 / 2 ^ 23) = Fin (1 + 1 / 2 ^ 23)"
    using f32_exact [of "2 ^ 23 + 1" "- 23"] by (simp add: pow2_def field_simps)
  have lo: "1 + 1 / 2 ^ 23 \<le> w"
    by (rule f32_lower [OF _ _ e w(1)]) (use assms in simp_all)
  then have w1: "1 \<le> w" by simp
  have ln_lo: "1 / 2 ^ 24 \<le> ln w" using lo by (rule ln_lower_24)
  have "ln w \<le> w - 1" using w1 by (intro ln_le_minus_one) simp
  then have "0 \<le> ln w" "ln w \<le> 2 ^ 101" using ln_lo w(3) by simp_all
  from f32_mono [OF this p101] obtain l where l: "f32 (ln w) = Fin l" by blast
  have e24: "f32 (1 / 2 ^ 24) = Fin (1 / 2 ^ 24)"
    using f32_pow2 [of "- 24"] by (simp add: pow2_def)
  have "1 / 2 ^ 24 \<le> l" by (rule f32_lower [OF _ ln_lo e24 l]) simp
  then have "0 < l" by (simp add: less_le_trans [of 0 "1 / 2 ^ 24"])
  moreover have "flog (Fin w) = Fin l" using w1 l by simp
  ultimately show ?thesis using that w(1) w1 by blast
qed

lemma applyCurve_log_1:
  assumes "INPUT_CURVE cfg = 2" "f32 (LOG_CURVE_K cfg) = Fin (LOG_CURVE_K cfg)"
    "1 / 2 ^ 23 \<le> LOG_CURVE_K cfg" "LOG_CURVE_K cfg \<le> 2 ^ 100"
  shows "applyCurve cfg 1 = Fin 1"
proof -
  from log_curve_den [OF assms(2-4)] obtain w l where
    d: "f32 (1 + LOG_CURVE_K cfg) = Fin w" "flog (Fin w) = Fin l" "0 < l" by blast
  show ?thesis
    using assms(1,2) d by (simp add: applyCurve_def Let_def del: flog.simps)
qed

lemma applyCurve_log_mono:
  assumes "INPUT_CURVE cfg = 2" "f32 (LOG_CURVE_K cfg) = Fin (LOG_CURVE_K cfg)"
    "1 / 2 ^ 23 \<le> LOG_CURVE_K cfg" "LOG_CURVE_K cfg \<le> 2 ^ 100"
    "0 \<le> u" "u \<le> v" "v \<le> 1"
  shows "\<exists>a b. applyCurve cfg u = Fin a \<and> applyCurve cfg v = Fin b \<and> 0 \<le> a \<and> a \<le> b \<and> b \<le> 1"
proof -
  let ?k = "LOG_CURVE_K cfg"
  from log_curve_den [OF assms(2-4)] obtain w l where
    d: "f32 (1 + ?k) = Fin w" "1 \<le> w" "flog (Fin w) = Fin l" "0 < l" by blast
  have k0: "0 \<le> ?k" using assms(3) by (simp add: order_trans [of 0 "1 / 2 ^ 23"])
  text \<open>the product\<close>
  have "0 \<le> ?k * v" "?k * v \<le> ?k" using k0 assms(5-7) by (simp_all add: mult_left_le)
  from f32_mono [OF this assms(2)] obtain pv where pv: "f32 (?k * v) = Fin pv" "0 \<le> pv" "pv \<le> ?k"
    by blast
  have "0 \<le> ?k * u" "?k * u \<le> ?k * v" using k0 assms(5-7) by (simp_all add: mult_left_mono)
  from f32_mono [OF this pv(1)] obtain pu where pu: "f32 (?k * u) = Fin pu" "0 \<le> pu" "pu \<le> pv"
    by blast
  text \<open>the sum\<close>
  have "0 \<le> 1 + pv" "1 + pv \<le> 1 + ?k" using pv by simp_all
  from f32_mono [OF this d(1)] obtain sv where sv: "f32 (1 + pv) = Fin sv" "sv \<le> w" by blast
  have "0 \<le> 1 + pu" "1 + pu \<le> 1 + pv" using pu by simp_all
  from f32_mono [OF this sv(1)] obtain su where su: "f32 (1 + pu) = Fin su" "su \<le> sv" by blast
  have su1: "1 \<le> su" by (rule f32_lower [OF _ _ f32_1 su(1)]) (use pu in simp_all)
  then have sv1: "1 \<le> sv" using su(2) by simp
  text \<open>the logarithm\<close>
  have lw: "f32 (ln w) = Fin l" using d(2,3) by simp
  have "0 \<le> ln sv" "ln sv \<le> ln w" using sv1 sv(2) by simp_all
  from f32_mono [OF this lw] obtain lv where lv: "f32 (ln sv) = Fin lv" "0 \<le> lv" "lv \<le> l" by blast
  have "0 \<le> ln su" "ln su \<le> ln sv" using su1 su(2) by simp_all
  from f32_mono [OF this lv(1)] obtain lu where lu: "f32 (ln su) = Fin lu" "0 \<le> lu" "lu \<le> lv" by blast
  text \<open>the quotient\<close>
  have "0 \<le> lv / l" "lv / l \<le> 1" using lv d(4) by simp_all
  from f32_mono [OF this f32_1] obtain b where b: "f32 (lv / l) = Fin b" "0 \<le> b" "b \<le> 1" by blast
  have "0 \<le> lu / l" "lu / l \<le> lv / l" using lu d(4) by (simp_all add: divide_right_mono)
  from f32_mono [OF this b(1)] obtain a where a: "f32 (lu / l) = Fin a" "0 \<le> a" "a \<le> b" by blast
  have "applyCurve cfg u = Fin a"
    using assms(1) pu(1) su(1) su1 lu(1) d(1,3,4) a(1) by (simp add: applyCurve_def Let_def)
  moreover have "applyCurve cfg v = Fin b"
    using assms(1) pv(1) sv(1) sv1 lv(1) d(1,3,4) b(1) by (simp add: applyCurve_def Let_def)
  ultimately show ?thesis using a b by blast
qed

lemma applyCurve_0:
  assumes "INPUT_CURVE cfg = 2 \<longrightarrow>
      f32 (LOG_CURVE_K cfg) = Fin (LOG_CURVE_K cfg) \<and>
      1 / 2 ^ 23 \<le> LOG_CURVE_K cfg \<and> LOG_CURVE_K cfg \<le> 2 ^ 100"
  shows "applyCurve cfg 0 = Fin 0"
proof (cases "INPUT_CURVE cfg = 2")
  case True
  with assms log_curve_den [of "LOG_CURVE_K cfg"] obtain w l where
    d: "f32 (1 + LOG_CURVE_K cfg) = Fin w" "flog (Fin w) = Fin l" "0 < l" by blast
  show ?thesis using True d by (simp add: applyCurve_def Let_def f32_0 del: flog.simps) (simp add: f32_0)
next
  case False
  then show ?thesis by (simp add: applyCurve_def f32_0)
qed

lemma applyCurve_quadratic_mono:
  assumes "INPUT_CURVE cfg = 1" "0 \<le> u" "u \<le> v" "v \<le> 1"
  shows "\<exists>a b. applyCurve cfg u = Fin a \<and> applyCurve cfg v = Fin b \<and> 0 \<le> a \<and> a \<le> b \<and> b \<le> 1"
proof -
  have "0 \<le> v * v" "v * v \<le> 1" using assms by (simp_all add: mult_le_one)
  from f32_mono [OF this f32_1] obtain b where b: "f32 (v * v) = Fin b" "0 \<le> b" "b \<le> 1" by blast
  have "0 \<le> u * u" "u * u \<le> v * v" using assms by (simp_all add: mult_mono)
  from f32_mono [OF this b(1)] obtain a where a: "f32 (u * u) = Fin a" "0 \<le> a" "a \<le> b" by blast
  show ?thesis using assms(1) a b by (simp add: applyCurve_def)
qed

subsection \<open>Steps of the loop\<close>

lemma controlInterval_default: "controlInterval default_config = 10"
  by (simp add: controlInterval_def default_config_simps)

lemma armThreshold_default: "armThreshold default_config = 500"
  by (simp add: armThreshold_def int_cast_def default_config_simps)

lemma normalizeADC_default_low:
  "f \<le> 10 \<Longrightarrow> normalizeADC default_config f = Fin 0"
  by (simp add: normalizeADC_def default_config_simps Let_def f32_0)

lemma normalizeADC_default_full:
  "1010 \<le> f \<Longrightarrow> normalizeADC default_config f = Fin 1"
  by (simp add: normalizeADC_def default_config_simps Let_def)

text \<open>The quotient lies between 0 and 1, and so do its rounding and the rounding of
  its complement.\<close>

lemma normalizeADC_unit:
  assumes "ANALOG_MIN_COUNTS cfg \<noteq> ANALOG_MAX_COUNTS cfg"
  shows "\<exists>u. normalizeADC cfg raw = Fin u \<and> 0 \<le> u \<and> u \<le> 1"
proof -
  define lo where "lo = ANALOG_MIN_COUNTS cfg"
  define hi where "hi = ANALOG_MAX_COUNTS cfg"
  define raw1 where "raw1 = (if raw < lo then lo else raw)"
  define raw2 where "raw2 = (if raw1 > hi then hi else raw1)"
  define q where "q = (of_int (raw2 - lo) :: real) / of_int (hi - lo)"
  have ne: "lo \<noteq> hi" using assms by (simp add: lo_def hi_def)
  have q: "0 \<le> q" "q \<le> 1"
  proof -
    show "0 \<le> q"
    proof (cases "lo < hi")
      case True
      then have "lo \<le> raw2" by (simp add: raw2_def raw1_def)
      then show ?thesis using True by (simp add: q_def)
    next
      case False
      then have "raw2 = hi" using ne by (simp add: raw2_def raw1_def)
      then show ?thesis using ne by (simp add: q_def)
    qed
    show "q \<le> 1"
    proof (cases "lo < hi")
      case True
      then have "raw2 \<le> hi" by (simp add: raw2_def raw1_def)
      then show ?thesis using True by (simp add: q_def)
    next
      case False
      then have "raw2 = hi" using ne by (simp add: raw2_def raw1_def)
      then show ?thesis using ne by (simp add: q_def)
    qed
  qed
  from f32_bounded [OF q f32_1]
  obtain a where a: "f32 q = Fin a" "0 \<le> a" "a \<le> 1" by auto
  have "0 \<le> 1 - a" "1 - a \<le> 1" using a(2,3) by simp_all
  from f32_bounded [OF this f32_1]
  obtain b where b: "f32 (1 - a) = Fin b" "0 \<le> b" "b \<le> 1" by auto
  have d: "(of_int (hi - lo) :: real) \<noteq> 0" using ne by simp
  have "fdiv (Fin (of_int (raw2 - lo))) (Fin (of_int (hi - lo))) = Fin q"
    using d unfolding q_def by (simp only: fdiv.simps if_True simp_thms)
  then have "round_fl (fdiv (Fin (of_int (raw2 - lo))) (Fin (of_int (hi - lo)))) = Fin a"
    using a(1) by simp
  then have "normalizeADC cfg raw = (if ANALOG_REVERSED cfg then Fin b else Fin a)"
    unfolding normalizeADC_def Let_def lo_def [symmetric] hi_def [symmetric]
      raw1_def [symmetric] raw2_def [symmetric]
    using a b by (simp add: not_less)
  then show ?thesis using a b by auto
qed

lemma scale_counts_0: "scale_counts 0 = Some 0"
  by (simp add: scale_counts_def f32_0 to_signed_def trunc_real_def)

lemma scale_counts_1: "scale_counts 1 = Some 1023"
  by (simp add: scale_counts_def to_signed_def trunc_real_def)

text \<open>The normalised value and the counts of some filtered samples, for the default
  calibration (10 to 1010 counts).\<close>

lemma normalizeADC_default_30: "normalizeADC default_config 30 = Fin (5368709 / 268435456)"
proof -
  have r: "round_even ((20 / 1000) / pow2 (- 6 - 23)) = 10737418"
    by (simp add: pow2_def round_even_def)
  have "f32 (20 / 1000) = Fin (of_int 10737418 * pow2 (- 6 - 23))"
    by (rule f32_eval [OF _ _ _ r]) (simp_all add: pow2_def)
  then have "f32 (20 / 1000) = Fin (5368709 / 268435456)" by (simp add: pow2_def)
  then show ?thesis by (simp add: normalizeADC_def default_config_simps Let_def)
qed

lemma scale_counts_30: "scale_counts (5368709 / 268435456) = Some 20"
proof -
  have r: "round_even ((5368709 / 268435456 * 1023) / pow2 (4 - 23)) = 10726932"
    by (simp add: pow2_def round_even_def)
  have "f32 (5368709 / 268435456 * 1023) = Fin (of_int 10726932 * pow2 (4 - 23))"
    by (rule f32_eval [OF _ _ _ r]) (simp_all add: pow2_def)
  then have "f32 (5368709 / 268435456 * 1023) = Fin (2681733 / 131072)" by (simp add: pow2_def)
  then show ?thesis by (simp add: scale_counts_def to_signed_def trunc_real_def)
qed

lemma normalizeADC_default_31: "normalizeADC default_config 31 = Fin (11274289 / 536870912)"
proof -
  have r: "round_even ((21 / 1000) / pow2 (- 6 - 23)) = 11274289"
    by (simp add: pow2_def round_even_def)
  have "f32 (21 / 1000) = Fin (of_int 11274289 * pow2 (- 6 - 23))"
    by (rule f32_eval [OF _ _ _ r]) (simp_all add: pow2_def)
  then have "f32 (21 / 1000) = Fin (11274289 / 536870912)" by (simp add: pow2_def)
  then show ?thesis by (simp add: normalizeADC_def default_config_simps Let_def)
qed

lemma scale_counts_31: "scale_counts (11274289 / 536870912) = Some 21"
proof -
  have r: "round_even ((11274289 / 536870912 * 1023) / pow2 (4 - 23)) = 11263279"
    by (simp add: pow2_def round_even_def)
  have "f32 (11274289 / 536870912 * 1023) = Fin (of_int 11263279 * pow2 (4 - 23))"
    by (rule f32_eval [OF _ _ _ r]) (simp_all add: pow2_def)
  then have "f32 (11274289 / 536870912 * 1023) = Fin (11263279 / 524288)" by (simp add: pow2_def)
  then show ?thesis by (simp add: scale_counts_def to_signed_def trunc_real_def)
qed

lemma normalizeADC_default_50: "normalizeADC default_config 50 = Fin (5368709 / 134217728)"
proof -
  have r: "round_even ((40 / 1000) / pow2 (- 5 - 23)) = 10737418"
    by (simp add: pow2_def round_even_def)
  have "f32 (40 / 1000) = Fin (of_int 10737418 * pow2 (- 5 - 23))"
    by (rule f32_eval [OF _ _ _ r]) (simp_all add: pow2_def)
  then have "f32 (40 / 1000) = Fin (5368709 / 134217728)" by (simp add: pow2_def)
  then show ?thesis by (simp add: normalizeADC_def default_config_simps Let_def)
qed

lemma scale_counts_50: "scale_counts (5368709 / 134217728) = Some 40"
proof -
  have r: "round_even ((5368709 / 134217728 * 1023) / pow2 (5 - 23)) = 10726932"
    by (simp add: pow2_def round_even_def)
  have "f32 (5368709 / 134217728 * 1023) = Fin (of_int 10726932 * pow2 (5 - 23))"
    by (rule f32_eval [OF _ _ _ r]) (simp_all add: pow2_def)
  then have "f32 (5368709 / 134217728 * 1023) = Fin (2681733 / 65536)" by (simp add: pow2_def)
  then show ?thesis by (simp add: scale_counts_def to_signed_def trunc_real_def)
qed

lemma normalizeADC_default_69: "normalizeADC default_config 69 = Fin (3959423 / 67108864)"
proof -
  have r: "round_even ((59 / 1000) / pow2 (- 5 - 23)) = 15837692"
    by (simp add: pow2_def round_even_def)
  have "f32 (59 / 1000) = Fin (of_int 15837692 * pow2 (- 5 - 23))"
    by (rule f32_eval [OF _ _ _ r]) (simp_all add: pow2_def)
  then have "f32 (59 / 1000) = Fin (3959423 / 67108864)" by (simp add: pow2_def)
  then show ?thesis by (simp add: normalizeADC_def default_config_simps Let_def)
qed

lemma scale_counts_69: "scale_counts (3959423 / 67108864) = Some 60"
proof -
  have r: "round_even ((3959423 / 67108864 * 1023) / pow2 (5 - 23)) = 15822226"
    by (simp add: pow2_def round_even_def)
  have "f32 (3959423 / 67108864 * 1023) = Fin (of_int 15822226 * pow2 (5 - 23))"
    by (rule f32_eval [OF _ _ _ r]) (simp_all add: pow2_def)
  then have "f32 (3959423 / 67108864 * 1023) = Fin (7911113 / 131072)" by (simp add: pow2_def)
  then show ?thesis by (simp add: scale_counts_def to_signed_def trunc_real_def)
qed

lemma normalizeADC_default_70: "normalizeADC default_config 70 = Fin (16106127 / 268435456)"
proof -
  have r: "round_even ((60 / 1000) / pow2 (- 5 - 23)) = 16106127"
    by (simp add: pow2_def round_even_def)
  have "f32 (60 / 1000) = Fin (of_int 16106127 * pow2 (- 5 - 23))"
    by (rule f32_eval [OF _ _ _ r]) (simp_all add: pow2_def)
  then have "f32 (60 / 1000) = Fin (16106127 / 268435456)" by (simp add: pow2_def)
  then show ?thesis by (simp add: normalizeADC_def default_config_simps Let_def)
qed

lemma scale_counts_70: "scale_counts (16106127 / 268435456) = Some 61"
proof -
  have r: "round_even ((16106127 / 268435456 * 1023) / pow2 (5 - 23)) = 16090398"
    by (simp add: pow2_def round_even_def)
  have "f32 (16106127 / 268435456 * 1023) = Fin (of_int 16090398 * pow2 (5 - 23))"
    by (rule f32_eval [OF _ _ _ r]) (simp_all add: pow2_def)
  then have "f32 (16106127 / 268435456 * 1023) = Fin (8045199 / 131072)" by (simp add: pow2_def)
  then show ?thesis by (simp add: scale_counts_def to_signed_def trunc_real_def)
qed

lemma loop_unarmed:
  "\<not> armed s \<Longrightarrow> loop_body cfg s now raw filt = Some (arming_step cfg s now raw)"
  by (simp add: loop_body_def)

lemma loop_idle:
  assumes "armed s" "now - lastControlUpdate s < controlInterval cfg"
  shows "loop_body cfg s now raw filt = Some (s\<lparr>ledPin := False\<rparr>, [StepperRun, DigitalWriteLed False])"
  using assms by (simp add: loop_body_def updateLED_def no_flags_def not_le [symmetric])

lemma loop_tick:
  assumes "armed s" "controlInterval cfg \<le> now - lastControlUpdate s"
    "normalizeADC cfg filt = Fin u" "scale_counts u = Some k"
  shows "loop_body cfg s now raw filt =
     (case zone_update cfg (s\<lparr>lastControlUpdate := now\<rparr>) now u k of
        None \<Rightarrow> None
      | Some (s1, es, f) \<Rightarrow>
          (let (s2, led) = updateLED s1 now (running f) (inHold f) (inDeadband f)
           in Some (s2, es @ [StepperRun] @ led)))"
  using assms by (simp add: loop_body_def control_update_def)

lemma loop_armed_mono:
  "armed s \<Longrightarrow> loop_body cfg s now raw filt = Some (s', es) \<Longrightarrow> armed s'"
  by (auto simp: loop_body_def control_update_def zone_update_def updateLED_def Let_def no_flags_def
       split: if_splits option.splits fl.splits prod.splits)

lemma hold_step_default:
  "loop_body default_config (init_state\<lparr>armed := True\<rparr>) 60000 1023 50
     = Some (init_state\<lparr>armed := True, lastControlUpdate := 60000, enablePin := False, 
         ledState := True, ledPin := True, lastLED := 60000\<rparr>,
        [DigitalWriteEnable False, StepperMoveToCurrentPosition, StepperRun, DigitalWriteLed True])"
proof -
  note n = normalizeADC_default_50 and t = scale_counts_50
  have "armed (init_state\<lparr>armed := True\<rparr>)" by simp
  moreover have "controlInterval default_config \<le> 60000 - lastControlUpdate (init_state\<lparr>armed := True\<rparr>)"
    by (simp add: controlInterval_default init_state_def)
  ultimately show ?thesis
    by (simp add: loop_tick [OF _ _ n t] zone_update_def default_config_simps updateLED_def
        no_flags_def init_state_def)
qed

section \<open>Claims\<close>

text \<open>C4: the safety state only ever goes from unarmed to armed. Once \<open>armed\<close> is
  true it stays true over any further sequence of loop iterations, whatever the clock
  and the pedal samples are.\<close>

theorem armed_never_reverts:
  "armed s \<Longrightarrow> run cfg s xs = Some s' \<Longrightarrow> armed s'"
proof (induction xs arbitrary: s)
  case Nil
  then show ?case by simp
next
  case (Cons x xs)
  obtain now raw filt where x: "x = (now, raw, filt)" by (cases x)
  from Cons.prems(2) x obtain s1 es where
    step: "loop_body cfg s now raw filt = Some (s1, es)" and rest: "run cfg s1 xs = Some s'"
    by (auto split: option.splits)
  from loop_armed_mono [OF Cons.prems(1) step] have "armed s1" .
  then show ?case using rest by (rule Cons.IH)
qed

theorem armed_never_reverts_witness:
  "armed (init_state\<lparr>armed := True\<rparr>) \<and>
   run default_config (init_state\<lparr>armed := True\<rparr>) [(60000, 1023, 50)]
     = Some (init_state\<lparr>armed := True, lastControlUpdate := 60000, enablePin := False, 
         ledState := True, ledPin := True, lastLED := 60000\<rparr>) \<and>
   armed (init_state\<lparr>armed := True, lastControlUpdate := 60000, enablePin := False, 
         ledState := True, ledPin := True, lastLED := 60000\<rparr>)"
proof -
  have r: "run default_config (init_state\<lparr>armed := True\<rparr>) [(60000, 1023, 50)]
     = Some (init_state\<lparr>armed := True, lastControlUpdate := 60000, enablePin := False, 
         ledState := True, ledPin := True, lastLED := 60000\<rparr>)"
    by (simp add: hold_step_default)
  have a: "armed (init_state\<lparr>armed := True\<rparr>)" by simp
  from armed_never_reverts [OF a r] r a show ?thesis by simp
qed

lemma sum_list_bounds:
  fixes xs :: "int list"
  assumes "\<forall>x \<in> set xs. lo \<le> x \<and> x \<le> hi"
  shows "lo * int (length xs) \<le> sum_list xs \<and> sum_list xs \<le> hi * int (length xs)"
  using assms by (induction xs) (auto simp: algebra_simps)

text \<open>The average of a non-empty buffer of ADC counts converts to \<open>int\<close>.\<close>

lemma filter_average_defined:
  assumes "buf \<noteq> []" "\<forall>x \<in> set buf. 0 \<le> x \<and> x \<le> 1023"
  shows "\<exists>average filteredADC.
     finite_value (filter_getAverage buf) = Some average \<and>
     to_signed 16 average = Some filteredADC"
proof -
  let ?n = "length buf" and ?avg = "(of_int (sum_list buf) / of_nat (length buf) :: real)"
  have n: "0 < ?n" using assms(1) by simp
  from sum_list_bounds [OF assms(2)]
  have s: "0 \<le> sum_list buf" "sum_list buf \<le> 1023 * int ?n" by simp_all
  have lo: "0 \<le> ?avg" using s(1) by simp
  have "(of_int (sum_list buf) :: real) \<le> of_int (1023 * int ?n)"
    using s(2) by (simp only: of_int_le_iff)
  then have hi: "?avg \<le> 1023" using n by (simp add: field_simps)
  have "f32 1023 = Fin 1023" by simp
  from f32_bounded [OF lo hi this]
  obtain a where a: "f32 ?avg = Fin a" "0 \<le> a" "a \<le> 1023" by auto
  have "0 \<le> \<lfloor>a\<rfloor>" "\<lfloor>a\<rfloor> \<le> 1023" using a(2,3) by (simp_all add: floor_le_iff)
  then have "to_signed 16 a = Some \<lfloor>a\<rfloor>"
    using a(2) by (simp add: to_signed_def trunc_real_def)
  then show ?thesis using assms(1) a(1) by (simp add: filter_getAverage_def)
qed

lemma filter_addValue_facts:
  assumes "0 < n"
  shows "filter_addValue n x buf \<noteq> []" "set (filter_addValue n x buf) \<subseteq> set (x # buf)"
  using assms by (auto simp: filter_addValue_def dest: in_set_takeD)

text \<open>C10, as stated, fails: every iteration, also one between two control updates,
  reads a sample and adds it to the filter (lines 228 to 230), so the buffer of the
  filter changes. Here the buffer holds eight samples 0 and the iteration reads 1023.\<close>

theorem idle_iteration_filter_counterexample:
  "loop default_config
     \<lparr> core = init_state\<lparr>armed := True, lastControlUpdate := 1000, ledPin := False\<rparr>,
       filterBuf = [0, 0, 0, 0, 0, 0, 0, 0] \<rparr>
     1005 1023
   = Some (\<lparr> core = init_state\<lparr>armed := True, lastControlUpdate := 1000, ledPin := False\<rparr>,
             filterBuf = [1023, 0, 0, 0, 0, 0, 0, 0] \<rparr>,
           [StepperRun, DigitalWriteLed False])"
proof -
  have e: "f32 (1023 / 8) = Fin (1023 / 8)"
    using f32_exact [of 1023 "- 3"] by (simp add: pow2_def)
  have t: "to_signed 16 (1023 / 8) = Some 127"
    by (simp add: to_signed_def trunc_real_def)
  have "loop_body default_config
      (init_state\<lparr>armed := True, lastControlUpdate := 1000, ledPin := False\<rparr>) 1005 1023 127
    = Some ((init_state\<lparr>armed := True, lastControlUpdate := 1000, ledPin := False\<rparr>)
              \<lparr>ledPin := False\<rparr>, [StepperRun, DigitalWriteLed False])"
    by (rule loop_idle) (simp_all add: controlInterval_default)
  then show ?thesis
    by (simp add: loop_def filter_addValue_def filter_getAverage_def default_config_simps e t)
qed

text \<open>C10, amended: an iteration in the armed state whose control interval has not
  elapsed reads a sample and adds it to the filter; apart from the buffer of the filter
  and the LED pin nothing changes: the ENABLE pin is not written, \<open>disableStart\<close>,
  \<open>virtualPos\<close> and \<open>lastControlUpdate\<close> keep their values, and the only calls made
  to the stepper and the pins are \<open>stepper.run()\<close> and the LED write of \<open>updateLED\<close>.
  (The filter holds at least one sample and the samples are ADC counts, 0 to 1023.)\<close>

theorem idle_iteration_frame:
  assumes "armed (core c)" "now - lastControlUpdate (core c) < controlInterval cfg"
    "0 < ANALOG_FILTER_SAMPLES cfg" "\<forall>x \<in> set (rawADC # filterBuf c). 0 \<le> x \<and> x \<le> 1023"
  shows "loop cfg c now rawADC =
           Some (\<lparr> core = (core c)\<lparr>ledPin := False\<rparr>,
                   filterBuf = filter_addValue (ANALOG_FILTER_SAMPLES cfg) rawADC (filterBuf c) \<rparr>,
                 [StepperRun, DigitalWriteLed False])"
proof -
  let ?buf = "filter_addValue (ANALOG_FILTER_SAMPLES cfg) rawADC (filterBuf c)"
  have "?buf \<noteq> []" using assms(3) by (rule filter_addValue_facts(1))
  moreover have "\<forall>x \<in> set ?buf. 0 \<le> x \<and> x \<le> 1023"
    using filter_addValue_facts(2) [OF assms(3), of rawADC "filterBuf c"] assms(4) by blast
  ultimately obtain average filteredADC where
    f: "finite_value (filter_getAverage ?buf) = Some average"
      "to_signed 16 average = Some filteredADC"
    using filter_average_defined by blast
  show ?thesis
    using f loop_idle [OF assms(1,2), of rawADC filteredADC] by (simp add: loop_def Let_def)
qed

theorem idle_iteration_frame_witness:
  "armed (core \<lparr> core = init_state\<lparr>armed := True, lastControlUpdate := 1000\<rparr>,
                 filterBuf = [0, 0, 0, 0, 0, 0, 0, 0] \<rparr>) \<and>
   (1005 :: ulong) - 1000 < controlInterval default_config \<and>
   0 < ANALOG_FILTER_SAMPLES default_config \<and>
   loop default_config
     \<lparr> core = init_state\<lparr>armed := True, lastControlUpdate := 1000\<rparr>,
       filterBuf = [0, 0, 0, 0, 0, 0, 0, 0] \<rparr>
     1005 1023
   = Some (\<lparr> core = init_state\<lparr>armed := True, lastControlUpdate := 1000, ledPin := False\<rparr>,
             filterBuf = [1023, 0, 0, 0, 0, 0, 0, 0] \<rparr>,
           [StepperRun, DigitalWriteLed False])"
proof -
  let ?c = "\<lparr> core = init_state\<lparr>armed := True, lastControlUpdate := 1000\<rparr>,
       filterBuf = [0, 0, 0, 0, 0, 0, 0, 0] \<rparr>"
  have a: "armed (core ?c)" by simp
  have b: "1005 - lastControlUpdate (core ?c) < controlInterval default_config"
    by (simp add: controlInterval_default)
  have n: "0 < ANALOG_FILTER_SAMPLES default_config" by (simp add: default_config_simps)
  have r: "\<forall>x \<in> set (1023 # filterBuf ?c). 0 \<le> x \<and> x \<le> 1023" by simp
  from idle_iteration_frame [OF a b n r] a b n
  show ?thesis by (simp add: filter_addValue_def default_config_simps controlInterval_default)
qed

text \<open>C5, as stated, fails for the logarithmic curve with a small positive \<open>k\<close>:
  when \<open>1.0 + k\<close> rounds to 1.0 (here \<open>k = 2^-30\<close>), line 153 computes
  \<open>log(1) / log(1) = 0 / 0\<close>, and the curve is NaN at every input, also at 1.\<close>

theorem applyCurve_tiny_k_counterexample:
  "applyCurve (default_config\<lparr>LOG_CURVE_K := 1 / 2 ^ 30\<rparr>) 1 = NaN"
proof -
  have k: "f32 (1 / 2 ^ 30) = Fin (1 / 2 ^ 30)"
    using f32_pow2 [of "- 30"] by (simp add: pow2_def)
  show ?thesis
    by (simp add: applyCurve_def default_config_simps Let_def k [simplified]
        f32_one_plus_tiny [simplified] f32_0)
qed

text \<open>C5, amended: for the linear curve, the quadratic curve, and the logarithmic curve
  with \<open>k\<close> a \<open>float\<close> value between \<open>2^-23\<close> and \<open>2^100\<close>, \<open>applyCurve\<close> is finite
  and monotonic non-decreasing on \<open>[0, 1]\<close>, maps 0 to 0 and 1 to 1: with
  \<open>0 \<le> u \<le> v \<le> 1\<close> the values at \<open>u\<close> and \<open>v\<close> are finite and ordered. It is a
  function of the configuration and its argument alone.\<close>

theorem applyCurve_monotone:
  assumes k: "INPUT_CURVE cfg = 2 \<longrightarrow>
      f32 (LOG_CURVE_K cfg) = Fin (LOG_CURVE_K cfg) \<and>
      1 / 2 ^ 23 \<le> LOG_CURVE_K cfg \<and> LOG_CURVE_K cfg \<le> 2 ^ 100"
    and uv: "0 \<le> u" "u \<le> v" "v \<le> 1"
  shows "\<exists>a b. applyCurve cfg u = Fin a \<and> applyCurve cfg v = Fin b \<and> a \<le> b \<and>
               applyCurve cfg 0 = Fin 0 \<and> applyCurve cfg 1 = Fin 1"
proof -
  have zero: "applyCurve cfg 0 = Fin 0" using k by (rule applyCurve_0)
  consider (log) "INPUT_CURVE cfg = 2" | (quad) "INPUT_CURVE cfg = 1"
    | (lin) "INPUT_CURVE cfg \<noteq> 1" "INPUT_CURVE cfg \<noteq> 2" by blast
  then show ?thesis
  proof cases
    case log
    with k have c: "f32 (LOG_CURVE_K cfg) = Fin (LOG_CURVE_K cfg)"
      "1 / 2 ^ 23 \<le> LOG_CURVE_K cfg" "LOG_CURVE_K cfg \<le> 2 ^ 100" by simp_all
    from applyCurve_log_mono [OF log c uv] applyCurve_log_1 [OF log c] zero
    show ?thesis by blast
  next
    case quad
    have "applyCurve cfg 1 = Fin 1" using quad by (simp add: applyCurve_def)
    with applyCurve_quadratic_mono [OF quad uv] zero show ?thesis by blast
  next
    case lin
    then show ?thesis using uv zero by (simp add: applyCurve_def)
  qed
qed

theorem applyCurve_monotone_witness:
  "INPUT_CURVE default_config = 2 \<and>
   f32 (LOG_CURVE_K default_config) = Fin (LOG_CURVE_K default_config) \<and>
   1 / 2 ^ 23 \<le> LOG_CURVE_K default_config \<and> LOG_CURVE_K default_config \<le> 2 ^ 100 \<and>
   (0::real) \<le> 1/4 \<and> (1/4 :: real) \<le> 1/2 \<and> (1/2 :: real) \<le> 1 \<and>
   (\<exists>a b. applyCurve default_config (1/4) = Fin a \<and> applyCurve default_config (1/2) = Fin b \<and>
      a \<le> b \<and> applyCurve default_config 0 = Fin 0 \<and> applyCurve default_config 1 = Fin 1)"
proof -
  have k: "INPUT_CURVE default_config = 2" 
    "f32 (LOG_CURVE_K default_config) = Fin (LOG_CURVE_K default_config)"
    "1 / 2 ^ 23 \<le> LOG_CURVE_K default_config" "LOG_CURVE_K default_config \<le> 2 ^ 100"
    by (simp_all add: default_config_simps)
  then have h: "INPUT_CURVE default_config = 2 \<longrightarrow>
      f32 (LOG_CURVE_K default_config) = Fin (LOG_CURVE_K default_config) \<and>
      1 / 2 ^ 23 \<le> LOG_CURVE_K default_config \<and> LOG_CURVE_K default_config \<le> 2 ^ 100"
    by blast
  have "(0::real) \<le> 1/4" "(1/4 :: real) \<le> 1/2" "(1/2 :: real) \<le> 1" by simp_all
  from applyCurve_monotone [OF h this] k show ?thesis by simp
qed

text \<open>C8, as stated, fails: with degenerate calibration bounds (minimum equal to
  maximum) the division is 0/0, the result is NaN, and neither clamp applies to it.\<close>

theorem normalizeADC_degenerate_counterexample:
  "normalizeADC (default_config\<lparr>ANALOG_MIN_COUNTS := 500, ANALOG_MAX_COUNTS := 500\<rparr>) 500 = NaN"
  by (simp add: normalizeADC_def Let_def default_config_simps)

lemma normalizeADC_inverted:
  assumes "ANALOG_MAX_COUNTS cfg < ANALOG_MIN_COUNTS cfg"
  shows "normalizeADC cfg raw = Fin (if ANALOG_REVERSED cfg then 0 else 1)"
  using assms by (auto simp: normalizeADC_def Let_def f32_0)

text \<open>C8, amended: for every raw sample and all calibration bounds that differ
  (inverted bounds included), \<open>normalizeADC\<close> returns a finite value in \<open>[0, 1]\<close>.\<close>

theorem normalizeADC_in_unit_interval:
  assumes "ANALOG_MIN_COUNTS cfg \<noteq> ANALOG_MAX_COUNTS cfg"
  shows "\<exists>u. normalizeADC cfg raw = Fin u \<and> 0 \<le> u \<and> u \<le> 1"
  using assms by (rule normalizeADC_unit)

theorem normalizeADC_in_unit_interval_witness:
  "ANALOG_MIN_COUNTS (default_config\<lparr>ANALOG_MIN_COUNTS := 1010, ANALOG_MAX_COUNTS := 10\<rparr>)
     \<noteq> ANALOG_MAX_COUNTS (default_config\<lparr>ANALOG_MIN_COUNTS := 1010, ANALOG_MAX_COUNTS := 10\<rparr>) \<and>
   (\<exists>u. normalizeADC (default_config\<lparr>ANALOG_MIN_COUNTS := 1010, ANALOG_MAX_COUNTS := 10\<rparr>) 500
          = Fin u \<and> 0 \<le> u \<and> u \<le> 1)"
proof -
  have h: "ANALOG_MIN_COUNTS (default_config\<lparr>ANALOG_MIN_COUNTS := 1010, ANALOG_MAX_COUNTS := 10\<rparr>)
     \<noteq> ANALOG_MAX_COUNTS (default_config\<lparr>ANALOG_MIN_COUNTS := 1010, ANALOG_MAX_COUNTS := 10\<rparr>)"
    by simp
  from normalizeADC_in_unit_interval [OF h, of 500] h show ?thesis by blast
qed

subsection \<open>Arming\<close>

lemma int_cast_id: "- 32768 \<le> x \<Longrightarrow> x \<le> 32767 \<Longrightarrow> int_cast x = x"
  by (simp add: int_cast_def sint_sbintrunc' signed_take_bit_int_eq_self)

lemma armThreshold_in_range:
  assumes "- 32768 \<le> ARM_DELAY_MS cfg" "ARM_DELAY_MS cfg \<le> 32767"
  shows "uint (armThreshold cfg) = max (ARM_DELAY_MS cfg) 250"
proof -
  have "uint (word_of_int (max (ARM_DELAY_MS cfg) 250) :: ulong) = max (ARM_DELAY_MS cfg) 250"
    using assms by (intro word_of_int_inverse [OF refl]) auto
  then show ?thesis using assms by (simp add: armThreshold_def int_cast_id)
qed

lemma arming_step_reset:
  assumes "\<not> armed s" "ANALOG_DEADBAND_COUNTS cfg < raw"
  shows "\<not> armed (fst (arming_step cfg s now raw))" "armStart (fst (arming_step cfg s now raw)) = 0"
  using assms by (simp_all add: arming_step_def updateLED_def Let_def split: prod.splits)

lemma arming_step_start:
  assumes "\<not> armed s" "raw \<le> ANALOG_DEADBAND_COUNTS cfg" "armStart s = 0"
  shows "\<not> armed (fst (arming_step cfg s now raw))" "armStart (fst (arming_step cfg s now raw)) = now"
  using assms by (simp_all add: arming_step_def updateLED_def Let_def split: prod.splits)

lemma arming_step_wait:
  assumes "\<not> armed s" "raw \<le> ANALOG_DEADBAND_COUNTS cfg" "armStart s \<noteq> 0"
    "now - armStart s < armThreshold cfg"
  shows "\<not> armed (fst (arming_step cfg s now raw))"
    "armStart (fst (arming_step cfg s now raw)) = armStart s"
  using assms by (simp_all add: arming_step_def updateLED_def Let_def not_le [symmetric] split: prod.splits)

lemma arming_step_fire:
  assumes "\<not> armed s" "raw \<le> ANALOG_DEADBAND_COUNTS cfg" "armStart s \<noteq> 0"
    "armThreshold cfg \<le> now - armStart s"
  shows "armed (fst (arming_step cfg s now raw))"
  using assms by (simp_all add: arming_step_def updateLED_def Let_def split: prod.splits)

lemma run_snoc:
  "run cfg s (xs @ [(now, raw, filt)]) =
     (case run cfg s xs of None \<Rightarrow> None
      | Some s1 \<Rightarrow> map_option fst (loop_body cfg s1 now raw filt))"
  by (induction xs arbitrary: s) (auto split: option.splits)

lemma run_unarmed_step:
  "\<not> armed s \<Longrightarrow> run cfg s ((now, raw, filt) # xs) = run cfg (fst (arming_step cfg s now raw)) xs"
  by (simp add: loop_unarmed split: prod.splits)

lemma arm_wait_run:
  assumes "\<not> armed s" "armStart s = tz" "tz \<noteq> 0"
    "\<forall>(t, r, f) \<in> set xs. r \<le> ANALOG_DEADBAND_COUNTS cfg \<and> t - tz < armThreshold cfg"
  shows "\<exists>sh. run cfg s xs = Some sh \<and> \<not> armed sh \<and> armStart sh = tz"
  using assms
proof (induction xs arbitrary: s)
  case Nil
  then show ?case by simp
next
  case (Cons x xs)
  obtain now raw filt where x: "x = (now, raw, filt)" by (cases x)
  let ?s1 = "fst (arming_step cfg s now raw)"
  from Cons.prems x have r: "raw \<le> ANALOG_DEADBAND_COUNTS cfg" and t: "now - armStart s < armThreshold cfg"
    and nz: "armStart s \<noteq> 0"
    by auto
  have "\<not> armed ?s1" "armStart ?s1 = tz"
    using arming_step_wait [OF Cons.prems(1) r nz t] Cons.prems(2) by simp_all
  moreover have "\<forall>(t, r, f) \<in> set xs. r \<le> ANALOG_DEADBAND_COUNTS cfg \<and> t - tz < armThreshold cfg"
    using Cons.prems(4) by simp
  ultimately have "\<exists>sh. run cfg ?s1 xs = Some sh \<and> \<not> armed sh \<and> armStart sh = tz"
    using Cons.prems(3) by (intro Cons.IH)
  then show ?case using x run_unarmed_step [OF Cons.prems(1)] by simp
qed

text \<open>C1, as stated, fails when the hold starts at clock value 0 (the value the clock
  wraps to every 2^32 ms): \<open>armStart = 0\<close> means "timer unset", so a sample at or below
  the deadband taken at \<open>millis() = 0\<close> does not start the timer. With samples at 0 ms and 500 ms, both in the deadband, the pedal was
  held for the 500 ms of the default configuration and the controller is still unarmed
  (the timer starts at 500).\<close>

theorem arm_hold_from_time_zero_counterexample:
  "run default_config init_state [(0, 0, 0), (500, 0, 0)]
     = Some (init_state\<lparr>armStart := 500, lastLED := 500, ledState := True, ledPin := True\<rparr>) \<and>
   \<not> armed (init_state\<lparr>armStart := 500, lastLED := 500, ledState := True, ledPin := True\<rparr>)"
  by (simp add: loop_body_def arming_step_def updateLED_def init_state_def default_config_simps)

text \<open>C1, amended: from an unarmed state with the timer unset, let a run of samples at
  or below the deadband start at a clock value \<open>tz\<close> other than 0, all further
  samples \<open>xs\<close> of the run being less than the threshold after \<open>tz\<close> (in wrapping
  32-bit arithmetic). Then the controller is still unarmed after the run and the timer
  holds \<open>tz\<close>; a next sample in the deadband at least the threshold after \<open>tz\<close> arms;
  a next sample above the deadband leaves the controller unarmed with the timer unset.
  The threshold is \<open>max(ARM_DELAY_MS, 250)\<close> when \<open>ARM_DELAY_MS\<close> fits the 16-bit
  \<open>int\<close> of the cast.\<close>

theorem arming_after_hold:
  assumes "\<not> armed s" "armStart s = 0" "tz \<noteq> 0" "rz \<le> ANALOG_DEADBAND_COUNTS cfg"
    "\<forall>(t, r, f) \<in> set xs. r \<le> ANALOG_DEADBAND_COUNTS cfg \<and> t - tz < armThreshold cfg"
  shows "\<exists>sh. run cfg s ((tz, rz, fz) # xs) = Some sh \<and> \<not> armed sh \<and> armStart sh = tz \<and>
           (r \<le> ANALOG_DEADBAND_COUNTS cfg \<and> armThreshold cfg \<le> t - tz \<longrightarrow>
              (\<exists>s'. run cfg s ((tz, rz, fz) # xs @ [(t, r, f)]) = Some s' \<and> armed s')) \<and>
           (ANALOG_DEADBAND_COUNTS cfg < r \<longrightarrow>
              (\<exists>s'. run cfg s ((tz, rz, fz) # xs @ [(t, r, f)]) = Some s' \<and>
                    \<not> armed s' \<and> armStart s' = 0)) \<and>
           (- 32768 \<le> ARM_DELAY_MS cfg \<and> ARM_DELAY_MS cfg \<le> 32767 \<longrightarrow>
              uint (armThreshold cfg) = max (ARM_DELAY_MS cfg) 250)"
proof -
  let ?s1 = "fst (arming_step cfg s tz rz)"
  have s1: "\<not> armed ?s1" "armStart ?s1 = tz"
    using arming_step_start [OF assms(1,4,2)] by simp_all
  from arm_wait_run [OF s1 assms(3,5)] obtain sh where
    sh: "run cfg ?s1 xs = Some sh" "\<not> armed sh" "armStart sh = tz" by blast
  have hd: "run cfg s ((tz, rz, fz) # ys) = run cfg ?s1 ys" for ys
    using run_unarmed_step [OF assms(1)] by simp
  have last: "run cfg s ((tz, rz, fz) # xs @ [(t, r, f)]) = Some (fst (arming_step cfg sh t r))"
    using sh by (simp only: hd run_snoc) (simp add: loop_unarmed)
  have fire: "armed (fst (arming_step cfg sh t r))"
    if "r \<le> ANALOG_DEADBAND_COUNTS cfg" "armThreshold cfg \<le> t - tz"
    using arming_step_fire [OF sh(2) that(1)] sh(3) assms(3) that(2) by simp
  have reset: "\<not> armed (fst (arming_step cfg sh t r)) \<and> armStart (fst (arming_step cfg sh t r)) = 0"
    if "ANALOG_DEADBAND_COUNTS cfg < r"
    using arming_step_reset [OF sh(2) that] by simp
  show ?thesis
    using sh hd [of xs] last fire reset armThreshold_in_range by auto
qed

theorem arming_after_hold_witness:
  "\<not> armed init_state \<and> armStart init_state = 0 \<and> (1000 :: ulong) \<noteq> 0 \<and>
   (0 :: int) \<le> ANALOG_DEADBAND_COUNTS default_config \<and>
   (5 :: int) \<le> ANALOG_DEADBAND_COUNTS default_config \<and>
   (1200 :: ulong) - 1000 < armThreshold default_config \<and>
   (10 :: int) \<le> ANALOG_DEADBAND_COUNTS default_config \<and>
   armThreshold default_config \<le> 1500 - 1000 \<and>
   (\<exists>s'. run default_config init_state [(1000, 0, 0), (1200, 5, 5), (1500, 10, 10)] = Some s' \<and>
         armed s') \<and>
   ANALOG_DEADBAND_COUNTS default_config < 500 \<and>
   (\<exists>s'. run default_config init_state [(1000, 0, 0), (1200, 5, 5), (1300, 500, 400)] = Some s' \<and>
         \<not> armed s' \<and> armStart s' = 0) \<and>
   - 32768 \<le> ARM_DELAY_MS default_config \<and> ARM_DELAY_MS default_config \<le> 32767 \<and>
   uint (armThreshold default_config) = max (ARM_DELAY_MS default_config) 250"
proof -
  have h1: "\<not> armed init_state" and h2: "armStart init_state = 0"
    by (simp_all add: init_state_def)
  have h3: "(1000 :: ulong) \<noteq> 0" by simp
  have h4: "(0 :: int) \<le> ANALOG_DEADBAND_COUNTS default_config"
    by (simp add: default_config_simps)
  have h5: "\<forall>(t, r, f) \<in> set [(1200 :: ulong, 5 :: int, 5 :: int)].
      r \<le> ANALOG_DEADBAND_COUNTS default_config \<and> t - 1000 < armThreshold default_config"
    by (simp add: default_config_simps armThreshold_default)
  have a: "(10 :: int) \<le> ANALOG_DEADBAND_COUNTS default_config"
      "armThreshold default_config \<le> 1500 - 1000"
      "ANALOG_DEADBAND_COUNTS default_config < 500"
      "- 32768 \<le> ARM_DELAY_MS default_config" "ARM_DELAY_MS default_config \<le> 32767"
    by (simp_all add: default_config_simps armThreshold_default)
  from arming_after_hold [OF h1 h2 h3 h4 h5, where r = 10 and t = 1500 and f = 10 and fz = 0]
       arming_after_hold [OF h1 h2 h3 h4 h5, where r = 500 and t = 1300 and f = 400 and fz = 0] h1 h2 h3 h4 h5 a
  show ?thesis by auto
qed

subsection \<open>Throttle\<close>

lemma integrate_Some:
  assumes "applyCurve cfg u = Fin curved" "f32 (of_int (MAX_SPEED_SPS cfg)) = Fin maxSpeed"
    "f32 (curved * maxSpeed) = Fin targetSpeed" "f32 (of_int (CONTROL_HZ cfg)) = Fin hz"
    "hz \<noteq> 0" "f32 (targetSpeed / hz) = Fin step" "f32 (vpos + step) = Fin vp"
  shows "integrate cfg vpos u = Some vp"
  using assms by (simp add: integrate_def)

lemma loop_throttle:
  assumes "armed s" "controlInterval cfg \<le> now - lastControlUpdate s"
    "normalizeADC cfg filt = Fin u" "scale_counts u = Some k"
    "ANALOG_DEADBAND_COUNTS cfg < k" "HOLD_BAND_COUNTS cfg < k"
    "integrate cfg (virtualPos s) u = Some vp" "to_signed 32 vp = Some target"
  shows "loop_body cfg s now raw filt =
     Some (s\<lparr>lastControlUpdate := now, disableStart := 0, enablePin := False,
             virtualPos := vp, ledPin := True\<rparr>,
           [DigitalWriteEnable False, StepperSetMaxSpeed (MAX_SPEED_SPS cfg),
            StepperSetAcceleration (MAX_ACCEL_SPS2 cfg), StepperMoveTo target,
            StepperRun, DigitalWriteLed True])"
  using assms
  by (simp add: loop_tick [OF assms(1-4)] zone_update_def Let_def updateLED_def no_flags_def)

lemma to_signed_Some: "to_signed n x = Some y \<Longrightarrow> y = trunc_real x"
  by (auto simp: to_signed_def split: if_splits)

lemma applyCurve_default_1: "applyCurve default_config 1 = Fin 1"
  by (rule applyCurve_log_1) (simp_all add: default_config_simps)

lemma applyCurve_default_range:
  assumes "0 \<le> u" "u \<le> 1"
  shows "\<exists>c. applyCurve default_config u = Fin c \<and> 0 \<le> c \<and> c \<le> 1"
proof -
  have "\<exists>a b. applyCurve default_config u = Fin a \<and> applyCurve default_config 1 = Fin b \<and>
      0 \<le> a \<and> a \<le> b \<and> b \<le> 1"
    by (rule applyCurve_log_mono) (use assms in \<open>simp_all add: default_config_simps\<close>)
  then show ?thesis by auto
qed

lemma to_signed_32_nonneg:
  assumes "0 \<le> x" "x < 2 ^ 31"
  shows "to_signed 32 x = Some \<lfloor>x\<rfloor>"
proof -
  have "0 \<le> \<lfloor>x\<rfloor>" using assms by simp
  moreover have "\<lfloor>x\<rfloor> < 2 ^ 31" using assms by (simp add: floor_less_iff)
  ultimately show ?thesis using assms by (simp add: to_signed_def trunc_real_def)
qed

text \<open>With the default settings the integration is finite for every input in \<open>[0, 1]\<close>
  while the accumulator is between 0 and \<open>2^30\<close>; a step is at most 40.\<close>

lemma integrate_default:
  assumes "0 \<le> u" "u \<le> 1" "0 \<le> vpos" "vpos \<le> 2 ^ 30"
  shows "\<exists>curved targetSpeed step vp.
     applyCurve default_config u = Fin curved \<and> f32 (curved * 4000) = Fin targetSpeed \<and>
     f32 (targetSpeed / 100) = Fin step \<and> f32 (vpos + step) = Fin vp \<and>
     integrate default_config vpos u = Some vp \<and> 0 \<le> vp \<and> vp < 2 ^ 31"
proof -
  from applyCurve_default_range [OF assms(1,2)] obtain c where
    c: "applyCurve default_config u = Fin c" "0 \<le> c" "c \<le> 1" by blast
  have m: "f32 4000 = Fin 4000" "f32 100 = Fin 100" "f32 40 = Fin 40" by simp_all
  have "0 \<le> c * 4000" "c * 4000 \<le> 4000" using c by simp_all
  from f32_mono [OF this m(1)] obtain ts where
    ts: "f32 (c * 4000) = Fin ts" "0 \<le> ts" "ts \<le> 4000" by blast
  have "0 \<le> ts / 100" "ts / 100 \<le> 40" using ts by simp_all
  from f32_mono [OF this m(3)] obtain st where
    st: "f32 (ts / 100) = Fin st" "0 \<le> st" "st \<le> 40" by blast
  have top: "f32 (2 ^ 30 + 128) = Fin (2 ^ 30 + 128)"
    using f32_exact [of "2 ^ 23 + 1" 7] by (simp add: pow2_def)
  have "0 \<le> vpos + st" "vpos + st \<le> 2 ^ 30 + 128" using assms st by simp_all
  from f32_mono [OF this top] obtain vp where
    vp: "f32 (vpos + st) = Fin vp" "0 \<le> vp" "vp \<le> 2 ^ 30 + 128" by blast
  have "integrate default_config vpos u = Some vp"
    using integrate_Some [of default_config u c 4000 ts 100 st vpos vp] c(1) ts(1) st(1) vp(1)
    by (simp add: default_config_simps)
  moreover have "vp < 2 ^ 31" using vp(3) by simp
  ultimately show ?thesis using c(1) ts(1) st(1) vp(1,2) by blast
qed

text \<open>Full pedal with the default settings, the accumulator a small whole number.\<close>

lemma integrate_default_full:
  assumes "0 \<le> n" "n + 40 < 2 ^ 24"
  shows "integrate default_config (of_int n) 1 = Some (of_int (n + 40))"
proof -
  have "f32 (of_int n + 40) = Fin (of_int (n + 40))"
    using f32_of_int [of "n + 40"] assms by simp
  then show ?thesis
    using integrate_Some [of default_config 1 1 4000 4000 100 40 "of_int n" "of_int (n + 40)"]
    by (simp add: applyCurve_default_1 default_config_simps)
qed

lemma loop_full_throttle_default:
  assumes "armed s" "10 \<le> now - lastControlUpdate s" "1010 \<le> filt"
    "virtualPos s = of_int n" "0 \<le> n" "n + 40 < 2 ^ 24"
  shows "loop_body default_config s now raw filt =
     Some (s\<lparr>lastControlUpdate := now, disableStart := 0, enablePin := False,
             virtualPos := of_int (n + 40), ledPin := True\<rparr>,
           [DigitalWriteEnable False, StepperSetMaxSpeed 4000, StepperSetAcceleration 800,
            StepperMoveTo (n + 40), StepperRun, DigitalWriteLed True])"
proof -
  have due: "controlInterval default_config \<le> now - lastControlUpdate s"
    using assms(2) by (simp add: controlInterval_default)
  have i: "integrate default_config (virtualPos s) 1 = Some (of_int (n + 40))"
    using integrate_default_full [OF assms(5,6)] assms(4) by simp
  have "(0::real) \<le> of_int (n + 40)" "(of_int (n + 40) :: real) < 2 ^ 31"
    using assms(5,6) by simp_all
  from to_signed_32_nonneg [OF this] have t: "to_signed 32 (of_int (n + 40)) = Some (n + 40)"
    by simp
  show ?thesis
    using loop_throttle [OF assms(1) due normalizeADC_default_full [OF assms(3)] scale_counts_1
        _ _ i t, of raw]
    by (simp add: default_config_simps)
qed

lemma run_full_throttle_default:
  assumes "armed s" "control_ticks default_config (lastControlUpdate s) xs"
    "\<forall>(t, r, f) \<in> set xs. 1010 \<le> f"
    "virtualPos s = of_int n" "0 \<le> n" "n + 40 * int (length xs) < 2 ^ 24"
  shows "\<exists>s'. run default_config s xs = Some s' \<and>
           virtualPos s' = of_int (n + 40 * int (length xs))"
  using assms
proof (induction xs arbitrary: s n)
  case Nil
  then show ?case by simp
next
  case (Cons x xs)
  obtain now raw filt where x: "x = (now, raw, filt)" by (cases x)
  let ?s1 = "s\<lparr>lastControlUpdate := now, disableStart := 0, enablePin := False,
             virtualPos := of_int (n + 40), ledPin := True\<rparr>"
  from Cons.prems x have due: "10 \<le> now - lastControlUpdate s" and f: "1010 \<le> filt"
    and rest: "control_ticks default_config now xs" "\<forall>(t, r, f) \<in> set xs. 1010 \<le> f"
    by (auto simp: controlInterval_default)
  have bound: "n + 40 < 2 ^ 24" using Cons.prems(6) by simp
  have step: "loop_body default_config s now raw filt = Some (?s1,
           [DigitalWriteEnable False, StepperSetMaxSpeed 4000, StepperSetAcceleration 800,
            StepperMoveTo (n + 40), StepperRun, DigitalWriteLed True])"
    using loop_full_throttle_default [OF Cons.prems(1) due f Cons.prems(4,5) bound] .
  have "\<exists>s'. run default_config ?s1 xs = Some s' \<and>
           virtualPos s' = of_int (n + 40 + 40 * int (length xs))"
    using Cons.prems rest by (intro Cons.IH) auto
  then show ?case using x step by (auto simp: algebra_simps)
qed

lemma full_pedal_train_facts:
  "length (full_pedal_train t n) = n"
  "control_ticks default_config t (full_pedal_train t n)"
  "\<forall>(t', r, f) \<in> set (full_pedal_train t n). 1010 \<le> f"
  by (induction n arbitrary: t) (simp_all add: controlInterval_default)

lemma f32_large_sum: "f32 (536870912 + 40) = Fin 536870976"
proof -
  have r: "round_even ((536870912 + 40) / pow2 (29 - 23)) = 8388609"
    by (simp add: pow2_def round_even_def)
  have "f32 (536870912 + 40) = Fin (of_int 8388609 * pow2 (29 - 23))"
    by (rule f32_eval [OF _ _ _ r]) (simp_all add: pow2_def)
  then show ?thesis by (simp add: pow2_def)
qed


text \<open>C7, as stated, fails once the accumulator is large: \<open>virtualPos\<close> is a binary32
  value (\<open>double\<close> has 32 bits on this target), and from \<open>2^24\<close> on not every whole
  number is one. With the default configuration and full pedal the step is 40; at
  \<open>virtualPos = 2^29\<close>, where neighbouring values are 64 apart, the control update
  advances the accumulator by 64.\<close>

theorem throttle_large_accumulator_counterexample:
  "loop_body default_config
     \<lparr> armed = True, armStart = 1000, disableStart = 0, lastControlUpdate = 990,
       lastLED = 1000, ledState = True, virtualPos = 536870912, enablePin = False,
       ledPin = True \<rparr>
     1000 1023 1010
   = Some (\<lparr> armed = True, armStart = 1000, disableStart = 0, lastControlUpdate = 1000,
             lastLED = 1000, ledState = True, virtualPos = 536870976, enablePin = False,
             ledPin = True \<rparr>,
           [DigitalWriteEnable False, StepperSetMaxSpeed 4000, StepperSetAcceleration 800,
            StepperMoveTo 536870976, StepperRun, DigitalWriteLed True])"
proof -
  let ?s = "\<lparr> armed = True, armStart = 1000, disableStart = 0, lastControlUpdate = 990,
       lastLED = 1000, ledState = True, virtualPos = 536870912, enablePin = False,
       ledPin = True \<rparr>"
  have i: "integrate default_config (virtualPos ?s) 1 = Some 536870976"
    using integrate_Some [of default_config 1 1 4000 4000 100 40 536870912 536870976]
      f32_large_sum
    by (simp add: applyCurve_default_1 default_config_simps)
  have t: "to_signed 32 536870976 = Some 536870976"
    using to_signed_32_nonneg [of 536870976] by simp
  have n: "normalizeADC default_config 1010 = Fin 1" by (simp add: normalizeADC_default_full)
  show ?thesis
    using loop_throttle [of ?s default_config 1000 1010 1 1023 536870976 536870976 1023,
        OF _ _ n scale_counts_1 _ _ i t]
    by (simp add: controlInterval_default default_config_simps)
qed

text \<open>C7, amended: on a control tick in the throttle zone (armed, interval elapsed, scaled
  input above the deadband and the hold band) \<open>virtualPos\<close> becomes the rounded sum of its
  old value and the step, the step being \<open>applyCurve(u) * MAX_SPEED_SPS / CONTROL_HZ\<close>
  with the product and the quotient rounded; while these are finite and the new value
  fits \<open>long\<close>, the iteration returns and \<open>stepper.moveTo\<close> is called with the truncated
  new value. With the default configuration the iteration returns for every input in the
  throttle zone while the accumulator is between 0 and \<open>2^30\<close>. With the default
  configuration (4000 steps/s, 100 Hz) and full pedal (\<open>u = 1\<close>, shaped value 1), from a
  whole accumulator value \<open>n\<close> with \<open>0 \<le> n\<close> and \<open>n + 4000 < 2^24\<close>, one tick returns
  and advances the accumulator by 40, and 100 ticks in a row return and advance it by
  4000.\<close>

theorem throttle_tick_advance:
  "(armed s \<and> controlInterval cfg \<le> now - lastControlUpdate s \<and>
    normalizeADC cfg filteredADC = Fin u \<and> scale_counts u = Some scaledADC \<and>
    ANALOG_DEADBAND_COUNTS cfg < scaledADC \<and> HOLD_BAND_COUNTS cfg < scaledADC \<and>
    applyCurve cfg u = Fin curved \<and> f32 (of_int (MAX_SPEED_SPS cfg)) = Fin maxSpeed \<and>
    f32 (curved * maxSpeed) = Fin targetSpeed \<and> f32 (of_int (CONTROL_HZ cfg)) = Fin hz \<and>
    hz \<noteq> 0 \<and> f32 (targetSpeed / hz) = Fin step \<and> f32 (virtualPos s + step) = Fin vp \<and>
    to_signed 32 vp = Some target \<longrightarrow>
      loop_body cfg s now rawADC filteredADC =
        Some (s\<lparr>lastControlUpdate := now, disableStart := 0, enablePin := False,
                virtualPos := vp, ledPin := True\<rparr>,
              [DigitalWriteEnable False, StepperSetMaxSpeed (MAX_SPEED_SPS cfg),
               StepperSetAcceleration (MAX_ACCEL_SPS2 cfg), StepperMoveTo target,
               StepperRun, DigitalWriteLed True]) \<and>
      target = trunc_real vp) \<and>
   (armed s \<and> controlInterval default_config \<le> now - lastControlUpdate s \<and>
    normalizeADC default_config filteredADC = Fin u \<and> scale_counts u = Some scaledADC \<and>
    ANALOG_DEADBAND_COUNTS default_config < scaledADC \<and>
    HOLD_BAND_COUNTS default_config < scaledADC \<and>
    0 \<le> virtualPos s \<and> virtualPos s \<le> 2 ^ 30 \<longrightarrow>
      (\<exists>curved targetSpeed step vp s' es.
         applyCurve default_config u = Fin curved \<and> f32 (curved * 4000) = Fin targetSpeed \<and>
         f32 (targetSpeed / 100) = Fin step \<and> f32 (virtualPos s + step) = Fin vp \<and>
         loop_body default_config s now rawADC filteredADC = Some (s', es) \<and>
         virtualPos s' = vp \<and> StepperMoveTo (trunc_real vp) \<in> set es)) \<and>
   (armed s \<and> control_ticks default_config (lastControlUpdate s) xs \<and>
    (\<forall>(t, r, f) \<in> set xs. 1010 \<le> f) \<and>
    virtualPos s = of_int n \<and> 0 \<le> n \<and> n + 4000 < 2 ^ 24 \<longrightarrow>
      (length xs = 1 \<longrightarrow>
         (\<exists>s1. run default_config s xs = Some s1 \<and> virtualPos s1 = virtualPos s + 40)) \<and>
      (length xs = 100 \<longrightarrow>
         (\<exists>s1. run default_config s xs = Some s1 \<and> virtualPos s1 = virtualPos s + 4000)))"
proof (intro conjI impI; (elim conjE)?)
  assume a: "armed s" "controlInterval cfg \<le> now - lastControlUpdate s"
    "normalizeADC cfg filteredADC = Fin u" "scale_counts u = Some scaledADC"
    "ANALOG_DEADBAND_COUNTS cfg < scaledADC" "HOLD_BAND_COUNTS cfg < scaledADC"
    and c: "applyCurve cfg u = Fin curved" "f32 (of_int (MAX_SPEED_SPS cfg)) = Fin maxSpeed"
    "f32 (curved * maxSpeed) = Fin targetSpeed" "f32 (of_int (CONTROL_HZ cfg)) = Fin hz"
    "hz \<noteq> 0" "f32 (targetSpeed / hz) = Fin step" "f32 (virtualPos s + step) = Fin vp"
    and t: "to_signed 32 vp = Some target"
  from loop_throttle [OF a integrate_Some [OF c] t]
  show "loop_body cfg s now rawADC filteredADC =
        Some (s\<lparr>lastControlUpdate := now, disableStart := 0, enablePin := False,
                virtualPos := vp, ledPin := True\<rparr>,
              [DigitalWriteEnable False, StepperSetMaxSpeed (MAX_SPEED_SPS cfg),
               StepperSetAcceleration (MAX_ACCEL_SPS2 cfg), StepperMoveTo target,
               StepperRun, DigitalWriteLed True])" .
  from t show "target = trunc_real vp" by (rule to_signed_Some)
next
  assume a: "armed s" "controlInterval default_config \<le> now - lastControlUpdate s"
    "normalizeADC default_config filteredADC = Fin u" "scale_counts u = Some scaledADC"
    "ANALOG_DEADBAND_COUNTS default_config < scaledADC"
    "HOLD_BAND_COUNTS default_config < scaledADC"
    and v: "0 \<le> virtualPos s" "virtualPos s \<le> 2 ^ 30"
  have u: "0 \<le> u" "u \<le> 1"
    using normalizeADC_unit [of default_config filteredADC] a(3)
    by (auto simp: default_config_simps)
  from integrate_default [OF u v] obtain curved targetSpeed step vp where
    i: "applyCurve default_config u = Fin curved" "f32 (curved * 4000) = Fin targetSpeed"
      "f32 (targetSpeed / 100) = Fin step" "f32 (virtualPos s + step) = Fin vp"
      "integrate default_config (virtualPos s) u = Some vp" "0 \<le> vp" "vp < 2 ^ 31"
    by blast
  have t: "to_signed 32 vp = Some (trunc_real vp)"
    using to_signed_32_nonneg [OF i(6,7)] i(6) by (simp add: trunc_real_def)
  from loop_throttle [OF a i(5) t, of rawADC] i(1-4)
  show "\<exists>curved targetSpeed step vp s' es.
         applyCurve default_config u = Fin curved \<and> f32 (curved * 4000) = Fin targetSpeed \<and>
         f32 (targetSpeed / 100) = Fin step \<and> f32 (virtualPos s + step) = Fin vp \<and>
         loop_body default_config s now rawADC filteredADC = Some (s', es) \<and>
         virtualPos s' = vp \<and> StepperMoveTo (trunc_real vp) \<in> set es"
    by (intro exI [of _ curved] exI [of _ targetSpeed] exI [of _ step] exI [of _ vp]) simp
next
  assume a: "armed s" "control_ticks default_config (lastControlUpdate s) xs"
    "\<forall>(t, r, f) \<in> set xs. 1010 \<le> f" "virtualPos s = of_int n" "0 \<le> n"
    and b: "n + 4000 < 2 ^ 24" and l: "length xs = 1"
  have "n + 40 * int (length xs) < 2 ^ 24" using b l by simp
  from run_full_throttle_default [OF a this] a(4) l
  show "\<exists>s1. run default_config s xs = Some s1 \<and> virtualPos s1 = virtualPos s + 40"
    by simp
next
  assume a: "armed s" "control_ticks default_config (lastControlUpdate s) xs"
    "\<forall>(t, r, f) \<in> set xs. 1010 \<le> f" "virtualPos s = of_int n" "0 \<le> n"
    and b: "n + 4000 < 2 ^ 24" and l: "length xs = 100"
  have "n + 40 * int (length xs) < 2 ^ 24" using b l by simp
  from run_full_throttle_default [OF a this] a(4) l
  show "\<exists>s1. run default_config s xs = Some s1 \<and> virtualPos s1 = virtualPos s + 4000"
    by simp
qed

theorem throttle_tick_advance_witness:
  "armed (init_state\<lparr>armed := True, lastControlUpdate := 990\<rparr>) \<and>
   controlInterval default_config
     \<le> 1000 - lastControlUpdate (init_state\<lparr>armed := True, lastControlUpdate := 990\<rparr>) \<and>
   normalizeADC default_config 1010 = Fin 1 \<and> scale_counts 1 = Some 1023 \<and>
   ANALOG_DEADBAND_COUNTS default_config < 1023 \<and> HOLD_BAND_COUNTS default_config < 1023 \<and>
   applyCurve default_config 1 = Fin 1 \<and>
   f32 (of_int (MAX_SPEED_SPS default_config)) = Fin 4000 \<and>
   f32 (of_int (CONTROL_HZ default_config)) = Fin 100 \<and>
   f32 40 = Fin 40 \<and> to_signed 32 40 = Some 40 \<and>
   loop_body default_config (init_state\<lparr>armed := True, lastControlUpdate := 990\<rparr>) 1000 1023 1010 =
     Some (init_state\<lparr>armed := True, lastControlUpdate := 1000, enablePin := False,
             virtualPos := 40, ledPin := True\<rparr>,
           [DigitalWriteEnable False, StepperSetMaxSpeed 4000, StepperSetAcceleration 800,
            StepperMoveTo 40, StepperRun, DigitalWriteLed True]) \<and>
   normalizeADC default_config 70 = Fin (16106127 / 268435456) \<and> scale_counts (16106127 / 268435456) = Some 61 \<and>
   ANALOG_DEADBAND_COUNTS default_config < 61 \<and> HOLD_BAND_COUNTS default_config < 61 \<and>
   (\<exists>curved targetSpeed step vp s' es.
      applyCurve default_config (16106127 / 268435456) = Fin curved \<and> f32 (curved * 4000) = Fin targetSpeed \<and>
      f32 (targetSpeed / 100) = Fin step \<and> f32 step = Fin vp \<and>
      loop_body default_config (init_state\<lparr>armed := True, lastControlUpdate := 990\<rparr>) 1000 70 70
        = Some (s', es) \<and>
      virtualPos s' = vp \<and> StepperMoveTo (trunc_real vp) \<in> set es) \<and>
   control_ticks default_config
     (lastControlUpdate (init_state\<lparr>armed := True, lastControlUpdate := 990\<rparr>))
     (full_pedal_train 990 100) \<and>
   length (full_pedal_train 990 100) = 100 \<and>
   (\<exists>s1. run default_config (init_state\<lparr>armed := True, lastControlUpdate := 990\<rparr>)
           (full_pedal_train 990 100) = Some s1 \<and>
         virtualPos s1 = 4000) \<and>
   (\<exists>s1. run default_config (init_state\<lparr>armed := True, lastControlUpdate := 990\<rparr>)
           [(1000, 1023, 1010)] = Some s1 \<and> virtualPos s1 = 40)"
proof -
  let ?s = "init_state\<lparr>armed := True, lastControlUpdate := 990\<rparr>"
  let ?xs = "full_pedal_train 990 100"
  have s: "armed ?s" "lastControlUpdate ?s = 990" "virtualPos ?s = 0"
    by (simp_all add: init_state_def)
  have due: "controlInterval default_config \<le> 1000 - lastControlUpdate ?s"
    by (simp add: controlInterval_default)
  have n: "normalizeADC default_config 1010 = Fin 1"
    by (simp add: normalizeADC_default_full)
  have k: "ANALOG_DEADBAND_COUNTS default_config < 1023" "HOLD_BAND_COUNTS default_config < 1023"
    "ANALOG_DEADBAND_COUNTS default_config < 61" "HOLD_BAND_COUNTS default_config < 61"
    by (simp_all add: default_config_simps)
  have f: "f32 (of_int (MAX_SPEED_SPS default_config)) = Fin 4000"
    "f32 (of_int (CONTROL_HZ default_config)) = Fin 100"
    "f32 (1 * 4000) = Fin 4000" "f32 (4000 / 100) = Fin 40" "f32 (virtualPos ?s + 40) = Fin 40"
    "f32 40 = Fin 40"
    by (simp_all add: default_config_simps s)
  have t: "to_signed 32 40 = Some 40" using to_signed_32_nonneg [of 40] by simp
  note t16 = scale_counts_1
  note n70 = normalizeADC_default_70 and t70 = scale_counts_70
  note tta = throttle_tick_advance [where s = ?s and now = 1000]
  have step: "loop_body default_config ?s 1000 1023 1010 =
     Some (init_state\<lparr>armed := True, lastControlUpdate := 1000, enablePin := False,
             virtualPos := 40, ledPin := True\<rparr>,
           [DigitalWriteEnable False, StepperSetMaxSpeed 4000, StepperSetAcceleration 800,
            StepperMoveTo 40, StepperRun, DigitalWriteLed True])"
    using tta [where cfg = default_config and filteredADC = 1010 and u = 1 and scaledADC = 1023
        and curved = 1 and maxSpeed = 4000 and targetSpeed = 4000 and hz = 100 and step = 40
        and vp = 40 and target = 40 and rawADC = 1023, THEN conjunct1]
      s(1) due n scale_counts_1 k(1,2) applyCurve_default_1 f(1-5) t
    by (simp add: init_state_def default_config_simps)
  have "armed ?s \<and> controlInterval default_config \<le> 1000 - lastControlUpdate ?s \<and>
    normalizeADC default_config 70 = Fin (16106127 / 268435456) \<and> scale_counts (16106127 / 268435456) = Some 61 \<and>
    ANALOG_DEADBAND_COUNTS default_config < 61 \<and> HOLD_BAND_COUNTS default_config < 61 \<and>
    0 \<le> virtualPos ?s \<and> virtualPos ?s \<le> 2 ^ 30"
    by (intro conjI s(1) due n70 t70 k(3,4)) (simp_all add: s)
  from tta [where filteredADC = 70 and u = "16106127 / 268435456" and scaledADC = 61 and rawADC = 70,
      THEN conjunct2, THEN conjunct1, rule_format, OF this]
  have p2: "\<exists>curved targetSpeed step vp s' es.
      applyCurve default_config (16106127 / 268435456) = Fin curved \<and> f32 (curved * 4000) = Fin targetSpeed \<and>
      f32 (targetSpeed / 100) = Fin step \<and> f32 step = Fin vp \<and>
      loop_body default_config ?s 1000 70 70 = Some (s', es) \<and>
      virtualPos s' = vp \<and> StepperMoveTo (trunc_real vp) \<in> set es"
    by (simp add: s)
  have one: "control_ticks default_config (lastControlUpdate ?s) [(1000, 1023, 1010)]"
    "\<forall>(t, r, f) \<in> set [(1000 :: ulong, 1023 :: int, 1010 :: int)]. 1010 \<le> f"
    by (simp_all add: controlInterval_default)
  have hundred: "control_ticks default_config (lastControlUpdate ?s) ?xs"
    "\<forall>(t, r, f) \<in> set ?xs. 1010 \<le> f"
    using full_pedal_train_facts(2,3) [of 990 100] s(2) by simp_all
  have len: "length ?xs = 100" by (rule full_pedal_train_facts(1))
  have vp: "virtualPos ?s = of_int 0" "(0::int) \<le> 0" "(0::int) + 4000 < 2 ^ 24"
    by (simp_all add: s)
  from tta [where xs = ?xs and n = 0, THEN conjunct2, THEN conjunct2, rule_format,
          OF conjI [OF s(1) conjI [OF hundred(1) conjI [OF hundred(2) conjI [OF vp(1) conjI [OF vp(2,3)]]]]],
          THEN conjunct2, rule_format, OF len]
  have p100: "\<exists>s1. run default_config ?s ?xs = Some s1 \<and> virtualPos s1 = 4000"
    by (simp add: s)
  from tta [where xs = "[(1000, 1023, 1010)]" and n = 0, THEN conjunct2, THEN conjunct2, rule_format,
          OF conjI [OF s(1) conjI [OF one(1) conjI [OF one(2) conjI [OF vp(1) conjI [OF vp(2,3)]]]]],
          THEN conjunct1, rule_format]
  have p1t: "\<exists>s1. run default_config ?s [(1000, 1023, 1010)] = Some s1 \<and> virtualPos s1 = 40"
    by (simp add: s)
  show ?thesis
    by (intro conjI s(1) due n t16 k applyCurve_default_1 f(1,2,6) t step n70 t70 p2
        hundred(1) len p100 p1t)
qed

subsection \<open>Zone classification\<close>

lemma control_update_scaled:
  assumes "normalizeADC cfg filt = Fin u" "scale_counts u = Some k"
  shows "control_update cfg s now filt = zone_update cfg (s\<lparr>lastControlUpdate := now\<rparr>) now u k"
  using assms by (simp add: control_update_def)

lemma zone_update_flags:
  assumes "zone_update cfg s now u k = Some (s', es, f)"
  shows "zone_of f = Some (classify_spec (ANALOG_DEADBAND_COUNTS cfg) (HOLD_BAND_COUNTS cfg) k)"
  using assms
  by (auto simp: zone_update_def zone_of_def classify_spec_def no_flags_def Let_def
      split: if_splits fl.splits option.splits)

lemma zone_update_returns:
  assumes "k \<le> HOLD_BAND_COUNTS cfg \<or> k \<le> ANALOG_DEADBAND_COUNTS cfg"
  shows "\<exists>s' es f. zone_update cfg s now u k = Some (s', es, f)"
  using assms by (auto simp: zone_update_def)

text \<open>C6: the control update classifies the filtered input after rescaling it to
  counts, \<open>scaledADC = (int)(u * 1023)\<close>. The flags it sets (and hands to \<open>updateLED\<close>)
  stand for STOP when \<open>scaledADC\<close> is at most the deadband, for HOLD when it is above
  the deadband and at most the hold band, for THROTTLE otherwise; in the first two cases
  the update always returns. With the hold band above the deadband: exactly the
  deadband is STOP, one count more is HOLD, exactly the hold band is HOLD, one count
  more is THROTTLE.\<close>

theorem three_zone_classification:
  assumes "normalizeADC cfg filteredADC = Fin u" "scale_counts u = Some scaledADC"
  shows "(\<forall>s' es f. control_update cfg s now filteredADC = Some (s', es, f) \<longrightarrow>
            zone_of f = Some (classify_spec (ANALOG_DEADBAND_COUNTS cfg) (HOLD_BAND_COUNTS cfg)
                                scaledADC)) \<and>
         (scaledADC \<le> HOLD_BAND_COUNTS cfg \<or> scaledADC \<le> ANALOG_DEADBAND_COUNTS cfg \<longrightarrow>
            (\<exists>s' es f. control_update cfg s now filteredADC = Some (s', es, f))) \<and>
         (scaledADC = ANALOG_DEADBAND_COUNTS cfg \<longrightarrow>
            classify_spec (ANALOG_DEADBAND_COUNTS cfg) (HOLD_BAND_COUNTS cfg) scaledADC = STOP) \<and>
         (ANALOG_DEADBAND_COUNTS cfg < HOLD_BAND_COUNTS cfg \<and>
          scaledADC = ANALOG_DEADBAND_COUNTS cfg + 1 \<longrightarrow>
            classify_spec (ANALOG_DEADBAND_COUNTS cfg) (HOLD_BAND_COUNTS cfg) scaledADC = HOLD) \<and>
         (ANALOG_DEADBAND_COUNTS cfg < HOLD_BAND_COUNTS cfg \<and>
          scaledADC = HOLD_BAND_COUNTS cfg \<longrightarrow>
            classify_spec (ANALOG_DEADBAND_COUNTS cfg) (HOLD_BAND_COUNTS cfg) scaledADC = HOLD) \<and>
         (ANALOG_DEADBAND_COUNTS cfg < HOLD_BAND_COUNTS cfg \<and>
          scaledADC = HOLD_BAND_COUNTS cfg + 1 \<longrightarrow>
            classify_spec (ANALOG_DEADBAND_COUNTS cfg) (HOLD_BAND_COUNTS cfg) scaledADC
              = THROTTLE)"
  unfolding control_update_scaled [OF assms]
  using zone_update_flags [of cfg _ now u scaledADC] zone_update_returns [of scaledADC cfg]
  by (auto simp: classify_spec_def)

theorem three_zone_classification_witness:
  "ANALOG_DEADBAND_COUNTS default_config < HOLD_BAND_COUNTS default_config \<and>
   normalizeADC default_config 30 = Fin (5368709 / 268435456) \<and> scale_counts (5368709 / 268435456) = Some 20 \<and>
   (20 :: int) = ANALOG_DEADBAND_COUNTS default_config \<and>
   (\<exists>s' es f. control_update default_config (init_state\<lparr>armed := True\<rparr>) 1000 30 = Some (s', es, f) \<and>
      zone_of f = Some STOP) \<and>
   normalizeADC default_config 31 = Fin (11274289 / 536870912) \<and> scale_counts (11274289 / 536870912) = Some 21 \<and>
   (21 :: int) = ANALOG_DEADBAND_COUNTS default_config + 1 \<and>
   (\<exists>s' es f. control_update default_config (init_state\<lparr>armed := True\<rparr>) 1000 31 = Some (s', es, f) \<and>
      zone_of f = Some HOLD) \<and>
   normalizeADC default_config 69 = Fin (3959423 / 67108864) \<and> scale_counts (3959423 / 67108864) = Some 60 \<and>
   (60 :: int) = HOLD_BAND_COUNTS default_config \<and>
   (\<exists>s' es f. control_update default_config (init_state\<lparr>armed := True\<rparr>) 1000 69 = Some (s', es, f) \<and>
      zone_of f = Some HOLD) \<and>
   normalizeADC default_config 70 = Fin (16106127 / 268435456) \<and> scale_counts (16106127 / 268435456) = Some 61 \<and>
   (61 :: int) = HOLD_BAND_COUNTS default_config + 1 \<and>
   (\<exists>s' es f. control_update default_config (init_state\<lparr>armed := True\<rparr>) 1000 70 = Some (s', es, f) \<and>
      zone_of f = Some THROTTLE)"
proof -
  let ?s = "init_state\<lparr>armed := True\<rparr>"
  have b: "ANALOG_DEADBAND_COUNTS default_config < HOLD_BAND_COUNTS default_config"
    by (simp add: default_config_simps)
  note n30 = normalizeADC_default_30 and t30 = scale_counts_30
  have r30: "(20 :: int) = ANALOG_DEADBAND_COUNTS default_config"
    by (simp add: default_config_simps)
  note n31 = normalizeADC_default_31 and t31 = scale_counts_31
  have r31: "(21 :: int) = ANALOG_DEADBAND_COUNTS default_config + 1"
    by (simp add: default_config_simps)
  note n69 = normalizeADC_default_69 and t69 = scale_counts_69
  have r69: "(60 :: int) = HOLD_BAND_COUNTS default_config"
    by (simp add: default_config_simps)
  note n70 = normalizeADC_default_70 and t70 = scale_counts_70
  have r70: "(61 :: int) = HOLD_BAND_COUNTS default_config + 1"
    by (simp add: default_config_simps)
  have e70: "\<exists>s' es f. control_update default_config ?s 1000 70 = Some (s', es, f)"
  proof -
    from integrate_default [of "16106127 / 268435456" 0] obtain vp where
      vp: "integrate default_config 0 (16106127 / 268435456) = Some vp" "0 \<le> vp" "vp < 2 ^ 31" by auto
    from to_signed_32_nonneg [OF vp(2,3)] have "to_signed 32 vp = Some \<lfloor>vp\<rfloor>" .
    then show ?thesis
      using vp(1) unfolding control_update_scaled [OF n70 t70]
      by (simp add: zone_update_def default_config_simps init_state_def)
  qed
  note c30 = three_zone_classification [OF n30 t30, of ?s 1000]
  note c31 = three_zone_classification [OF n31 t31, of ?s 1000]
  note c69 = three_zone_classification [OF n69 t69, of ?s 1000]
  note c70 = three_zone_classification [OF n70 t70, of ?s 1000]
  have p30: "\<exists>s' es f. control_update default_config ?s 1000 30 = Some (s', es, f) \<and>
      zone_of f = Some STOP"
  proof -
    have z: "classify_spec (ANALOG_DEADBAND_COUNTS default_config)
               (HOLD_BAND_COUNTS default_config) 20 = STOP"
      using c30 [THEN conjunct2, THEN conjunct2] b r30 by simp
    have "\<exists>s' es f. control_update default_config ?s 1000 30 = Some (s', es, f)"
      using c30 [THEN conjunct2, THEN conjunct1] e70 by (simp add: default_config_simps)
    then obtain s' es f where e: "control_update default_config ?s 1000 30 = Some (s', es, f)"
      by blast
    from c30 [THEN conjunct1, rule_format, OF e] z e show ?thesis by simp
  qed
  have p31: "\<exists>s' es f. control_update default_config ?s 1000 31 = Some (s', es, f) \<and>
      zone_of f = Some HOLD"
  proof -
    have z: "classify_spec (ANALOG_DEADBAND_COUNTS default_config)
               (HOLD_BAND_COUNTS default_config) 21 = HOLD"
      using c31 [THEN conjunct2, THEN conjunct2] b r31 by simp
    have "\<exists>s' es f. control_update default_config ?s 1000 31 = Some (s', es, f)"
      using c31 [THEN conjunct2, THEN conjunct1] e70 by (simp add: default_config_simps)
    then obtain s' es f where e: "control_update default_config ?s 1000 31 = Some (s', es, f)"
      by blast
    from c31 [THEN conjunct1, rule_format, OF e] z e show ?thesis by simp
  qed
  have p69: "\<exists>s' es f. control_update default_config ?s 1000 69 = Some (s', es, f) \<and>
      zone_of f = Some HOLD"
  proof -
    have z: "classify_spec (ANALOG_DEADBAND_COUNTS default_config)
               (HOLD_BAND_COUNTS default_config) 60 = HOLD"
      using c69 [THEN conjunct2, THEN conjunct2] b r69 by simp
    have "\<exists>s' es f. control_update default_config ?s 1000 69 = Some (s', es, f)"
      using c69 [THEN conjunct2, THEN conjunct1] e70 by (simp add: default_config_simps)
    then obtain s' es f where e: "control_update default_config ?s 1000 69 = Some (s', es, f)"
      by blast
    from c69 [THEN conjunct1, rule_format, OF e] z e show ?thesis by simp
  qed
  have p70: "\<exists>s' es f. control_update default_config ?s 1000 70 = Some (s', es, f) \<and>
      zone_of f = Some THROTTLE"
  proof -
    have z: "classify_spec (ANALOG_DEADBAND_COUNTS default_config)
               (HOLD_BAND_COUNTS default_config) 61 = THROTTLE"
      using c70 [THEN conjunct2, THEN conjunct2] b r70 by simp
    have "\<exists>s' es f. control_update default_config ?s 1000 70 = Some (s', es, f)"
      using c70 [THEN conjunct2, THEN conjunct1] e70 by (simp add: default_config_simps)
    then obtain s' es f where e: "control_update default_config ?s 1000 70 = Some (s', es, f)"
      by blast
    from c70 [THEN conjunct1, rule_format, OF e] z e show ?thesis by simp
  qed
  show ?thesis
    by (intro conjI b n30 t30 r30 p30 n31 t31 r31 p31 n69 t69 r69 p69 n70 t70 r70 p70)
qed

subsection \<open>Status LED\<close>

lemma run_append:
  "run cfg s (xs @ ys) = (case run cfg s xs of None \<Rightarrow> None | Some s1 \<Rightarrow> run cfg s1 ys)"
  by (induction xs arbitrary: s) (auto split: option.splits)

lemma loop_stop_start:
  assumes "armed s" "controlInterval cfg \<le> now - lastControlUpdate s"
    "normalizeADC cfg filt = Fin u" "scale_counts u = Some k"
    "k \<le> ANALOG_DEADBAND_COUNTS cfg" "disableStart s = 0"
  shows "loop_body cfg s now raw filt =
     Some (s\<lparr>lastControlUpdate := now, disableStart := now,
              ledPin := (now mod 1000 < 100 \<or> (200 \<le> now mod 1000 \<and> now mod 1000 < 300))\<rparr>,
           [StepperRun,
            DigitalWriteLed (now mod 1000 < 100 \<or> (200 \<le> now mod 1000 \<and> now mod 1000 < 300))])"
  using assms(5,6,1)
  by (simp add: loop_tick [OF assms(1-4)] zone_update_def Let_def updateLED_def no_flags_def)

text \<open>C9 does not hold of the loop: the flags \<open>running\<close>, \<open>inHold\<close> and \<open>inDeadband\<close>
  are reset in every iteration and set only inside the rate-limited control update, so
  every armed iteration between two control updates calls \<open>updateLED\<close> with all three
  false and writes the LED LOW, whatever the zone. Evaluated from the state after
  \<open>setup()\<close>: the pedal is at rest while arming (samples at 1000 and 1500 ms) and at the
  first control update (1501 ms), is then pressed fully (raw 1023; the filtered values
  are the 8-sample averages); the control update at 1511 ms is in the throttle zone and
  writes the LED HIGH; the iteration 1 ms later, pedal still fully pressed, writes it
  LOW.\<close>

theorem led_not_solid_in_throttle:
  "run default_config init_state
     [(1000, 0, 0), (1500, 0, 0), (1501, 0, 0),
      (1502, 1023, 127), (1503, 1023, 255), (1504, 1023, 383), (1505, 1023, 511),
      (1506, 1023, 639), (1507, 1023, 767), (1508, 1023, 895), (1509, 1023, 1023),
      (1511, 1023, 1023)]
     = Some \<lparr> armed = True, armStart = 1000, disableStart = 0, lastControlUpdate = 1511,
              lastLED = 1000, ledState = True, virtualPos = 40, enablePin = False,
              ledPin = True \<rparr> \<and>
   loop_body default_config
     \<lparr> armed = True, armStart = 1000, disableStart = 0, lastControlUpdate = 1511,
       lastLED = 1000, ledState = True, virtualPos = 40, enablePin = False, ledPin = True \<rparr>
     1512 1023 1023
     = Some (\<lparr> armed = True, armStart = 1000, disableStart = 0, lastControlUpdate = 1511,
               lastLED = 1000, ledState = True, virtualPos = 40, enablePin = False,
               ledPin = False \<rparr>,
             [StepperRun, DigitalWriteLed False])"
proof -
  let ?a = "\<lparr> armed = True, armStart = 1000, disableStart = 0, lastControlUpdate = 0,
              lastLED = 1000, ledState = True, virtualPos = 0, enablePin = True,
              ledPin = False \<rparr>"
  let ?b = "\<lparr> armed = True, armStart = 1000, disableStart = 1501, lastControlUpdate = 1501,
              lastLED = 1000, ledState = True, virtualPos = 0, enablePin = True,
              ledPin = False \<rparr>"
  let ?c = "\<lparr> armed = True, armStart = 1000, disableStart = 0, lastControlUpdate = 1511,
              lastLED = 1000, ledState = True, virtualPos = 40, enablePin = False,
              ledPin = True \<rparr>"
  have arm: "run default_config init_state [(1000, 0, 0), (1500, 0, 0)] = Some ?a"
    by (simp add: loop_body_def arming_step_def updateLED_def init_state_def default_config_simps
        armThreshold_default)
  have stop: "loop_body default_config ?a 1501 0 0 = Some (?b, [StepperRun, DigitalWriteLed False])"
    using loop_stop_start [of ?a default_config 1501 0 0 0 0]
    by (simp add: controlInterval_default normalizeADC_default_low scale_counts_0
        default_config_simps)
  have idle: "loop_body default_config ?b now raw filt = Some (?b, [StepperRun, DigitalWriteLed False])"
    if "now - 1501 < 10" for now raw filt
    using loop_idle [of ?b now default_config raw filt] that
    by (simp add: controlInterval_default)
  have thr: "loop_body default_config ?b 1511 1023 1023 =
      Some (?c, [DigitalWriteEnable False, StepperSetMaxSpeed 4000, StepperSetAcceleration 800,
            StepperMoveTo 40, StepperRun, DigitalWriteLed True])"
    using loop_full_throttle_default
      [where s = ?b and now = 1511 and filt = 1023 and raw = 1023 and n = 0]
    by simp
  have after: "loop_body default_config ?c 1512 1023 1023 =
      Some (?c\<lparr>ledPin := False\<rparr>, [StepperRun, DigitalWriteLed False])"
    using loop_idle [of ?c 1512 default_config 1023 1023] by (simp add: controlInterval_default)
  have "run default_config init_state
     ([(1000, 0, 0), (1500, 0, 0)] @ (1501, 0, 0) #
      [(1502, 1023, 127), (1503, 1023, 255), (1504, 1023, 383), (1505, 1023, 511),
       (1506, 1023, 639), (1507, 1023, 767), (1508, 1023, 895), (1509, 1023, 1023),
       (1511, 1023, 1023)]) = Some ?c"
    unfolding run_append arm by (simp add: stop idle thr)
  then show ?thesis using after by simp
qed

subsection \<open>Disabling at stop\<close>

lemma scaledADC_of_Some:
  assumes "scaledADC_of cfg filt = Some k"
  obtains u where "normalizeADC cfg filt = Fin u" "scale_counts u = Some k"
  using assms by (auto simp: scaledADC_of_def split: fl.splits)

lemma loop_stop_fire:
  assumes "armed s" "controlInterval cfg \<le> now - lastControlUpdate s"
    "normalizeADC cfg filt = Fin u" "scale_counts u = Some k"
    "k \<le> ANALOG_DEADBAND_COUNTS cfg" "disableStart s \<noteq> 0"
    "word_of_int (DISABLE_DELAY_MS cfg) \<le> now - disableStart s"
  shows "loop_body cfg s now raw filt =
     Some (s\<lparr>lastControlUpdate := now, enablePin := True,
              ledPin := (now mod 1000 < 100 \<or> (200 \<le> now mod 1000 \<and> now mod 1000 < 300))\<rparr>,
           [DigitalWriteEnable True, StepperStop, StepperRun,
            DigitalWriteLed (now mod 1000 < 100 \<or> (200 \<le> now mod 1000 \<and> now mod 1000 < 300))])"
  using assms(5,6,7,1)
  by (simp add: loop_tick [OF assms(1-4)] zone_update_def Let_def updateLED_def no_flags_def)

lemma loop_stop_wait:
  assumes "armed s" "controlInterval cfg \<le> now - lastControlUpdate s"
    "normalizeADC cfg filt = Fin u" "scale_counts u = Some k"
    "k \<le> ANALOG_DEADBAND_COUNTS cfg" "disableStart s \<noteq> 0"
    "now - disableStart s < word_of_int (DISABLE_DELAY_MS cfg)"
  shows "loop_body cfg s now raw filt =
     Some (s\<lparr>lastControlUpdate := now,
              ledPin := (now mod 1000 < 100 \<or> (200 \<le> now mod 1000 \<and> now mod 1000 < 300))\<rparr>,
           [StepperRun,
            DigitalWriteLed (now mod 1000 < 100 \<or> (200 \<le> now mod 1000 \<and> now mod 1000 < 300))])"
  using assms(5,6,7,1)
  by (simp add: loop_tick [OF assms(1-4)] zone_update_def Let_def updateLED_def no_flags_def
      not_le [symmetric])

lemma loop_hold:
  assumes "armed s" "controlInterval cfg \<le> now - lastControlUpdate s"
    "normalizeADC cfg filt = Fin u" "scale_counts u = Some k"
    "ANALOG_DEADBAND_COUNTS cfg < k" "k \<le> HOLD_BAND_COUNTS cfg"
  shows "\<exists>s' led. loop_body cfg s now raw filt =
     Some (s', [DigitalWriteEnable False, StepperMoveToCurrentPosition, StepperRun] @ led) \<and>
     disableStart s' = 0 \<and> \<not> enablePin s' \<and> armed s' \<and> virtualPos s' = virtualPos s"
  using assms(5,6,1)
  by (simp add: loop_tick [OF assms(1-4)] zone_update_def Let_def updateLED_def no_flags_def)

lemma loop_leave_stop:
  assumes "armed s" "controlInterval cfg \<le> now - lastControlUpdate s"
    "normalizeADC cfg filt = Fin u" "scale_counts u = Some k"
    "ANALOG_DEADBAND_COUNTS cfg < k" "loop_body cfg s now raw filt = Some (s', es)"
  shows "disableStart s' = 0 \<and> \<not> enablePin s' \<and> DigitalWriteEnable False \<in> set es"
  using assms(5,6,1) unfolding loop_tick [OF assms(1-4)]
  by (auto simp: zone_update_def Let_def updateLED_def no_flags_def
      split: if_splits fl.splits option.splits)

text \<open>An iteration with a STOP input while the disable timer runs and has not elapsed.\<close>

lemma loop_stop_pending:
  assumes "armed s" "scaledADC_of cfg filt = Some k" "k \<le> ANALOG_DEADBAND_COUNTS cfg"
    "disableStart s \<noteq> 0" "now - disableStart s < word_of_int (DISABLE_DELAY_MS cfg)"
  shows "\<exists>s' es. loop_body cfg s now raw filt = Some (s', es) \<and> armed s' \<and>
           disableStart s' = disableStart s \<and> enablePin s' = enablePin s \<and>
           virtualPos s' = virtualPos s"
proof (cases "controlInterval cfg \<le> now - lastControlUpdate s")
  case True
  from assms(2) obtain u where u: "normalizeADC cfg filt = Fin u" "scale_counts u = Some k"
    by (rule scaledADC_of_Some)
  show ?thesis
    using loop_stop_wait [OF assms(1) True u assms(3,4,5), of raw] assms(1) by simp
next
  case False
  then have "now - lastControlUpdate s < controlInterval cfg" by simp
  from loop_idle [OF assms(1) this, of raw filt] assms(1) show ?thesis by simp
qed

lemma stop_pending_run:
  assumes "armed s" "disableStart s = tz" "tz \<noteq> 0"
    "\<forall>(t, r, f) \<in> set xs.
       (\<exists>k. scaledADC_of cfg f = Some k \<and> k \<le> ANALOG_DEADBAND_COUNTS cfg) \<and>
       t - tz < word_of_int (DISABLE_DELAY_MS cfg)"
  shows "\<exists>sh. run cfg s xs = Some sh \<and> armed sh \<and> disableStart sh = tz \<and>
           enablePin sh = enablePin s \<and> virtualPos sh = virtualPos s"
  using assms
proof (induction xs arbitrary: s)
  case Nil
  then show ?case by simp
next
  case (Cons x xs)
  obtain now raw filt where x: "x = (now, raw, filt)" by (cases x)
  from Cons.prems(4) x obtain k where
    k: "scaledADC_of cfg filt = Some k" "k \<le> ANALOG_DEADBAND_COUNTS cfg"
    and t: "now - tz < word_of_int (DISABLE_DELAY_MS cfg)"
    by auto
  from loop_stop_pending [OF Cons.prems(1) k, of now raw] Cons.prems(2,3) t
  obtain s1 es where s1: "loop_body cfg s now raw filt = Some (s1, es)" "armed s1"
    "disableStart s1 = tz" "enablePin s1 = enablePin s" "virtualPos s1 = virtualPos s"
    by auto
  have "\<exists>sh. run cfg s1 xs = Some sh \<and> armed sh \<and> disableStart sh = tz \<and>
           enablePin sh = enablePin s1 \<and> virtualPos sh = virtualPos s1"
    using s1(2,3) Cons.prems(3,4) by (intro Cons.IH) auto
  then show ?case using x s1 by auto
qed

lemma scaledADC_of_default:
  "scaledADC_of default_config 50 = Some 40"
  "f \<le> 10 \<Longrightarrow> scaledADC_of default_config f = Some 0"
proof -
  show "scaledADC_of default_config 50 = Some 40"
    unfolding scaledADC_of_def normalizeADC_default_50 fl.case
    by (rule scale_counts_50)
  show "scaledADC_of default_config f = Some 0" if "f \<le> 10"
    unfolding scaledADC_of_def normalizeADC_default_low [OF that] fl.case
    by (rule scale_counts_0)
qed

text \<open>C3, as stated, fails when the stop starts at clock value 0: \<open>disableStart = 0\<close>
  means "timer unset", so a control update in the STOP zone at \<open>millis() = 0\<close> (the clock
  wraps to 0 after 2^32 ms) does not start the timer. Here the drive is enabled, the
  zone is STOP at the control updates at 0 ms and at 100 ms, the default disable delay
  of 100 ms has passed, and the ENABLE pin is still LOW: the timer starts at 100.\<close>

theorem stop_hold_from_time_zero_counterexample:
  "run default_config
     \<lparr> armed = True, armStart = 1000, disableStart = 0, lastControlUpdate = 4294967196,
       lastLED = 1000, ledState = True, virtualPos = 40, enablePin = False, ledPin = False \<rparr>
     [(0, 0, 0), (100, 0, 0)]
     = Some \<lparr> armed = True, armStart = 1000, disableStart = 100, lastControlUpdate = 100,
              lastLED = 1000, ledState = True, virtualPos = 40, enablePin = False,
              ledPin = False \<rparr>"
proof -
  let ?a = "\<lparr> armed = True, armStart = 1000, disableStart = 0, lastControlUpdate = 4294967196,
       lastLED = 1000, ledState = True, virtualPos = 40, enablePin = False, ledPin = False \<rparr>"
  let ?b = "\<lparr> armed = True, armStart = 1000, disableStart = 0, lastControlUpdate = 0,
       lastLED = 1000, ledState = True, virtualPos = 40, enablePin = False, ledPin = True \<rparr>"
  have 1: "loop_body default_config ?a 0 0 0 = Some (?b, [StepperRun, DigitalWriteLed True])"
    using loop_stop_start [of ?a default_config 0 0 0 0 0]
    by (simp add: controlInterval_default normalizeADC_default_low scale_counts_0
        default_config_simps)
  have 2: "loop_body default_config ?b 100 0 0 =
      Some (\<lparr> armed = True, armStart = 1000, disableStart = 100, lastControlUpdate = 100,
              lastLED = 1000, ledState = True, virtualPos = 40, enablePin = False,
              ledPin = False \<rparr>, [StepperRun, DigitalWriteLed False])"
    using loop_stop_start [of ?b default_config 100 0 0 0 0]
    by (simp add: controlInterval_default normalizeADC_default_low scale_counts_0
        default_config_simps)
  show ?thesis by (simp add: 1 2)
qed

text \<open>C3, amended: in the armed state with the disable timer unset, let a control
  update at a clock value \<open>tz\<close> other than 0 classify STOP, and let every further
  iteration \<open>xs\<close> have a STOP input and come less than \<open>DISABLE_DELAY_MS\<close> after
  \<open>tz\<close>. Then the run returns, the timer holds \<open>tz\<close>, and the ENABLE pin and
  \<open>virtualPos\<close> are as before. From there, a control update in the STOP zone at least
  \<open>DISABLE_DELAY_MS\<close> after \<open>tz\<close> writes ENABLE HIGH and calls \<open>stepper.stop()\<close>
  (\<open>virtualPos\<close> keeps its value); a control update outside the STOP zone, if it returns,
  resets the timer to 0 and writes ENABLE LOW, and in the hold band it does return.\<close>

theorem stop_hold_disables:
  assumes "armed s" "disableStart s = 0" "controlInterval cfg \<le> tz - lastControlUpdate s"
    "tz \<noteq> 0" "scaledADC_of cfg fz = Some kz" "kz \<le> ANALOG_DEADBAND_COUNTS cfg"
    "\<forall>(t, r, f) \<in> set xs.
       (\<exists>k. scaledADC_of cfg f = Some k \<and> k \<le> ANALOG_DEADBAND_COUNTS cfg) \<and>
       t - tz < word_of_int (DISABLE_DELAY_MS cfg)"
  shows "\<exists>sh. run cfg s ((tz, rz, fz) # xs) = Some sh \<and> armed sh \<and> disableStart sh = tz \<and>
           enablePin sh = enablePin s \<and> virtualPos sh = virtualPos s \<and>
           (controlInterval cfg \<le> t - lastControlUpdate sh \<and> scaledADC_of cfg f = Some k \<longrightarrow>
              (k \<le> ANALOG_DEADBAND_COUNTS cfg \<and> word_of_int (DISABLE_DELAY_MS cfg) \<le> t - tz \<longrightarrow>
                 (\<exists>s' es. loop_body cfg sh t r f = Some (s', es) \<and> enablePin s' \<and>
                    DigitalWriteEnable True \<in> set es \<and> StepperStop \<in> set es \<and>
                    virtualPos s' = virtualPos sh)) \<and>
              (ANALOG_DEADBAND_COUNTS cfg < k \<longrightarrow>
                 (\<forall>s' es. loop_body cfg sh t r f = Some (s', es) \<longrightarrow>
                    disableStart s' = 0 \<and> \<not> enablePin s' \<and> DigitalWriteEnable False \<in> set es)) \<and>
              (ANALOG_DEADBAND_COUNTS cfg < k \<and> k \<le> HOLD_BAND_COUNTS cfg \<longrightarrow>
                 (\<exists>s' es. loop_body cfg sh t r f = Some (s', es))))"
proof -
  from assms(5) obtain uz where
    uz: "normalizeADC cfg fz = Fin uz" "scale_counts uz = Some kz"
    by (rule scaledADC_of_Some)
  let ?led = "tz mod 1000 < 100 \<or> (200 \<le> tz mod 1000 \<and> tz mod 1000 < 300)"
  let ?s1 = "s\<lparr>lastControlUpdate := tz, disableStart := tz, ledPin := ?led\<rparr>"
  have first: "loop_body cfg s tz rz fz = Some (?s1, [StepperRun, DigitalWriteLed ?led])"
    using loop_stop_start [OF assms(1,3) uz assms(6,2)] .
  have "armed ?s1" "disableStart ?s1 = tz" using assms(1) by simp_all
  from stop_pending_run [OF this assms(4,7)] obtain sh where
    sh: "run cfg ?s1 xs = Some sh" "armed sh" "disableStart sh = tz"
      "enablePin sh = enablePin s" "virtualPos sh = virtualPos s"
    by auto
  have r: "run cfg s ((tz, rz, fz) # xs) = Some sh" using first sh(1) by simp
  have "\<exists>s' es. loop_body cfg sh t r f = Some (s', es) \<and> enablePin s' \<and>
          DigitalWriteEnable True \<in> set es \<and> StepperStop \<in> set es \<and>
          virtualPos s' = virtualPos sh"
    if due: "controlInterval cfg \<le> t - lastControlUpdate sh" and k: "scaledADC_of cfg f = Some k"
      and stop: "k \<le> ANALOG_DEADBAND_COUNTS cfg"
      and el: "word_of_int (DISABLE_DELAY_MS cfg) \<le> t - tz"
  proof -
    from k obtain u where u: "normalizeADC cfg f = Fin u" "scale_counts u = Some k"
      by (rule scaledADC_of_Some)
    show ?thesis
      using loop_stop_fire [OF sh(2) due u stop, of r] sh(3) assms(4) el by simp
  qed
  moreover have "disableStart s' = 0 \<and> \<not> enablePin s' \<and> DigitalWriteEnable False \<in> set es"
    if due: "controlInterval cfg \<le> t - lastControlUpdate sh" and k: "scaledADC_of cfg f = Some k"
      and nostop: "ANALOG_DEADBAND_COUNTS cfg < k" and l: "loop_body cfg sh t r f = Some (s', es)"
    for s' es
  proof -
    from k obtain u where u: "normalizeADC cfg f = Fin u" "scale_counts u = Some k"
      by (rule scaledADC_of_Some)
    show ?thesis using loop_leave_stop [OF sh(2) due u nostop l] .
  qed
  moreover have "\<exists>s' es. loop_body cfg sh t r f = Some (s', es)"
    if due: "controlInterval cfg \<le> t - lastControlUpdate sh" and k: "scaledADC_of cfg f = Some k"
      and hold: "ANALOG_DEADBAND_COUNTS cfg < k" "k \<le> HOLD_BAND_COUNTS cfg"
  proof -
    from k obtain u where u: "normalizeADC cfg f = Fin u" "scale_counts u = Some k"
      by (rule scaledADC_of_Some)
    show ?thesis using loop_hold [OF sh(2) due u hold, of r] by blast
  qed
  ultimately show ?thesis using r sh(2-5) by blast
qed

theorem stop_hold_disables_witness:
  "armed \<lparr> armed = True, armStart = 1000, disableStart = 0, lastControlUpdate = 1990,
       lastLED = 1000, ledState = True, virtualPos = 40, enablePin = False, ledPin = False \<rparr> \<and>
   (2000 :: ulong) \<noteq> 0 \<and> controlInterval default_config \<le> 2000 - 1990 \<and>
   scaledADC_of default_config 0 = Some 0 \<and> 0 \<le> ANALOG_DEADBAND_COUNTS default_config \<and>
   (2005 :: ulong) - 2000 < word_of_int (DISABLE_DELAY_MS default_config) \<and>
   (2010 :: ulong) - 2000 < word_of_int (DISABLE_DELAY_MS default_config) \<and>
   run default_config
     \<lparr> armed = True, armStart = 1000, disableStart = 0, lastControlUpdate = 1990,
       lastLED = 1000, ledState = True, virtualPos = 40, enablePin = False, ledPin = False \<rparr>
     [(2000, 0, 0), (2005, 0, 0), (2010, 0, 0)]
     = Some \<lparr> armed = True, armStart = 1000, disableStart = 2000, lastControlUpdate = 2010,
       lastLED = 1000, ledState = True, virtualPos = 40, enablePin = False, ledPin = True \<rparr> \<and>
   controlInterval default_config \<le> 2100 - 2010 \<and>
   word_of_int (DISABLE_DELAY_MS default_config) \<le> (2100 :: ulong) - 2000 \<and>
   (\<exists>s' es. loop_body default_config
        \<lparr> armed = True, armStart = 1000, disableStart = 2000, lastControlUpdate = 2010,
          lastLED = 1000, ledState = True, virtualPos = 40, enablePin = False, ledPin = True \<rparr>
        2100 0 0 = Some (s', es) \<and> enablePin s' \<and>
      DigitalWriteEnable True \<in> set es \<and> StepperStop \<in> set es \<and> virtualPos s' = 40) \<and>
   controlInterval default_config \<le> 2050 - 2010 \<and>
   scaledADC_of default_config 50 = Some 40 \<and>
   ANALOG_DEADBAND_COUNTS default_config < 40 \<and> 40 \<le> HOLD_BAND_COUNTS default_config \<and>
   (\<exists>s' es. loop_body default_config
        \<lparr> armed = True, armStart = 1000, disableStart = 2000, lastControlUpdate = 2010,
          lastLED = 1000, ledState = True, virtualPos = 40, enablePin = False, ledPin = True \<rparr>
        2050 50 50 = Some (s', es) \<and> disableStart s' = 0 \<and> \<not> enablePin s' \<and>
      DigitalWriteEnable False \<in> set es)"
proof -
  let ?s = "\<lparr> armed = True, armStart = 1000, disableStart = 0, lastControlUpdate = 1990,
       lastLED = 1000, ledState = True, virtualPos = 40, enablePin = False, ledPin = False \<rparr>"
  let ?sh = "\<lparr> armed = True, armStart = 1000, disableStart = 2000, lastControlUpdate = 2010,
       lastLED = 1000, ledState = True, virtualPos = 40, enablePin = False, ledPin = True \<rparr>"
  let ?xs = "[(2005 :: ulong, 0 :: int, 0 :: int), (2010, 0, 0)]"
  have h1: "armed ?s" and h2: "disableStart ?s = 0"
    and h3: "controlInterval default_config \<le> 2000 - lastControlUpdate ?s"
    and h4: "(2000 :: ulong) \<noteq> 0"
    by (simp_all add: controlInterval_default)
  have h5: "scaledADC_of default_config 0 = Some 0" by (simp add: scaledADC_of_default)
  have h6: "0 \<le> ANALOG_DEADBAND_COUNTS default_config" by (simp add: default_config_simps)
  have h7: "\<forall>(t, r, f) \<in> set ?xs.
       (\<exists>k. scaledADC_of default_config f = Some k \<and> k \<le> ANALOG_DEADBAND_COUNTS default_config) \<and>
       t - 2000 < word_of_int (DISABLE_DELAY_MS default_config)"
    by (simp add: scaledADC_of_default default_config_simps)
  have k50: "scaledADC_of default_config 50 = Some 40"
    by (rule scaledADC_of_default(1))
  have c: "controlInterval default_config \<le> 2100 - lastControlUpdate ?sh"
      "word_of_int (DISABLE_DELAY_MS default_config) \<le> (2100 :: ulong) - 2000"
      "controlInterval default_config \<le> 2050 - lastControlUpdate ?sh"
      "ANALOG_DEADBAND_COUNTS default_config < 40" "40 \<le> HOLD_BAND_COUNTS default_config"
    by (simp_all add: controlInterval_default default_config_simps)
  note t = stop_hold_disables [OF h1 h2 h3 h4 h5 h6 h7, where rz = 0]
  from t [of 2100 0 0 0] obtain sh where
    r: "run default_config ?s ((2000, 0, 0) # ?xs) = Some sh" by blast
  have vp: "virtualPos sh = 40" "enablePin sh = False" "disableStart sh = 2000"
    using t [of 2100 0 0 0] r by auto
  have run: "run default_config ?s ((2000, 0, 0) # ?xs) = Some ?sh"
  proof -
    have 1: "loop_body default_config ?s 2000 0 0 =
        Some (?s\<lparr>lastControlUpdate := 2000, disableStart := 2000, ledPin := True\<rparr>,
              [StepperRun, DigitalWriteLed True])"
      using loop_stop_start [of ?s default_config 2000 0 0 0 0]
      by (simp add: controlInterval_default normalizeADC_default_low scale_counts_0
          default_config_simps)
    have 2: "loop_body default_config
          \<lparr> armed = True, armStart = 1000, disableStart = 2000, lastControlUpdate = 2000,
            lastLED = 1000, ledState = True, virtualPos = 40, enablePin = False, ledPin = True \<rparr>
          2005 0 0 =
        Some (\<lparr> armed = True, armStart = 1000, disableStart = 2000, lastControlUpdate = 2000,
            lastLED = 1000, ledState = True, virtualPos = 40, enablePin = False, ledPin = False \<rparr>,
              [StepperRun, DigitalWriteLed False])"
      by (simp add: loop_idle controlInterval_default)
    have 3: "loop_body default_config
          \<lparr> armed = True, armStart = 1000, disableStart = 2000, lastControlUpdate = 2000,
            lastLED = 1000, ledState = True, virtualPos = 40, enablePin = False, ledPin = False \<rparr>
          2010 0 0 = Some (?sh, [StepperRun, DigitalWriteLed True])"
      using loop_stop_wait [of _ default_config 2010 0 0 0 0, OF _ _ normalizeADC_default_low]
      by (simp add: controlInterval_default scale_counts_0 default_config_simps)
    show ?thesis by (simp add: 1 2 3)
  qed
  with r have sh: "sh = ?sh" by simp
  from t [of 2100 0 0 0] r sh c(1,2) h5 h6
  have fire: "\<exists>s' es. loop_body default_config ?sh 2100 0 0 = Some (s', es) \<and> enablePin s' \<and>
      DigitalWriteEnable True \<in> set es \<and> StepperStop \<in> set es \<and> virtualPos s' = 40"
    by auto
  from t [of 2050 50 40 50] r sh c(3,4,5) k50
  have leave: "\<exists>s' es. loop_body default_config ?sh 2050 50 50 = Some (s', es) \<and>
      disableStart s' = 0 \<and> \<not> enablePin s' \<and> DigitalWriteEnable False \<in> set es"
    by auto
  show ?thesis
    using h1 h3 h4 h5 h6 h7 run c k50 fire leave by simp
qed

subsection \<open>Drive enable\<close>

lemma arming_step_effects:
  "\<exists>s' led. arming_step cfg s now raw = (s', [StepperStop, DigitalWriteEnable True] @ led) \<and>
     enablePin s' \<and> (led = [] \<or> (\<exists>b. led = [DigitalWriteLed b]))"
  by (auto simp: arming_step_def updateLED_def Let_def split: prod.splits)

lemma reachable_enabled_armed:
  "reachable cfg s \<Longrightarrow> \<not> enablePin s \<Longrightarrow> armed s"
proof (induction rule: reachable.induct)
  case reachable_init
  then show ?case by (simp add: init_state_def)
next
  case (reachable_loop s now rawADC filteredADC s' es)
  show ?case
  proof (cases "armed s")
    case True
    then show ?thesis using reachable_loop.hyps(2) by (rule loop_armed_mono)
  next
    case False
    with reachable_loop.hyps(2) arming_step_effects [of cfg s now rawADC]
    have "enablePin s'" by (auto simp: loop_unarmed)
    with reachable_loop.prems show ?thesis by simp
  qed
qed

lemma loop_stop_enable:
  assumes "armed s" "controlInterval cfg \<le> now - lastControlUpdate s"
    "scaledADC_of cfg filt = Some k" "k \<le> ANALOG_DEADBAND_COUNTS cfg"
    "loop_body cfg s now raw filt = Some (s', es)"
  shows "enablePin s' =
    (if disableStart s \<noteq> 0 \<and> word_of_int (DISABLE_DELAY_MS cfg) \<le> now - disableStart s
     then True else enablePin s)"
proof -
  from assms(3) obtain u where u: "normalizeADC cfg filt = Fin u" "scale_counts u = Some k"
    by (rule scaledADC_of_Some)
  show ?thesis
    using assms(4,5,1) unfolding loop_tick [OF assms(1,2) u]
    by (auto simp: zone_update_def Let_def updateLED_def no_flags_def split: if_splits)
qed

lemma run_arm_default:
  "run default_config init_state [(1000, 0, 0), (1500, 0, 0)] = Some
     \<lparr> armed = True, armStart = 1000, disableStart = 0, lastControlUpdate = 0,
       lastLED = 1000, ledState = True, virtualPos = 0, enablePin = True, ledPin = False \<rparr>"
  by (simp add: loop_body_def arming_step_def updateLED_def init_state_def default_config_simps
      armThreshold_default)

lemma loop_stop_after_arming_default:
  "loop_body default_config
     \<lparr> armed = True, armStart = 1000, disableStart = 0, lastControlUpdate = 0,
       lastLED = 1000, ledState = True, virtualPos = 0, enablePin = True, ledPin = False \<rparr>
     1501 0 0 = Some
    (\<lparr> armed = True, armStart = 1000, disableStart = 1501, lastControlUpdate = 1501,
       lastLED = 1000, ledState = True, virtualPos = 0, enablePin = True, ledPin = False \<rparr>,
     [StepperRun, DigitalWriteLed False])"
  using loop_stop_start [of "\<lparr> armed = True, armStart = 1000, disableStart = 0, lastControlUpdate = 0,
       lastLED = 1000, ledState = True, virtualPos = 0, enablePin = True, ledPin = False \<rparr>" default_config 1501 0 0 0 0]
  by (simp add: controlInterval_default normalizeADC_default_low scale_counts_0
      default_config_simps)

lemma reachable_run:
  "reachable cfg s \<Longrightarrow> run cfg s xs = Some s' \<Longrightarrow> reachable cfg s'"
proof (induction xs arbitrary: s)
  case Nil
  then show ?case by simp
next
  case (Cons x xs)
  obtain now raw filt where x: "x = (now, raw, filt)" by (cases x)
  from Cons.prems(2) x obtain s1 es where
    step: "loop_body cfg s now raw filt = Some (s1, es)" and rest: "run cfg s1 xs = Some s'"
    by (auto split: option.splits)
  from reachable_loop [OF Cons.prems(1) step] rest show ?case by (rule Cons.IH)
qed

lemma loop_hold_default:
  "loop_body default_config
     \<lparr> armed = True, armStart = 1000, disableStart = 1501, lastControlUpdate = 1501,
       lastLED = 1000, ledState = True, virtualPos = 0, enablePin = True, ledPin = False \<rparr>
     1511 50 50 = Some
    (\<lparr> armed = True, armStart = 1000, disableStart = 0, lastControlUpdate = 1511,
       lastLED = 1511, ledState = False, virtualPos = 0, enablePin = False, ledPin = False \<rparr>,
     [DigitalWriteEnable False, StepperMoveToCurrentPosition, StepperRun, DigitalWriteLed False])"
proof -
  note n = normalizeADC_default_50 and t = scale_counts_50
  show ?thesis
    using loop_tick [of "\<lparr> armed = True, armStart = 1000, disableStart = 1501, lastControlUpdate = 1501,
       lastLED = 1000, ledState = True, virtualPos = 0, enablePin = True, ledPin = False \<rparr>" default_config 1511 50 "5368709 / 134217728" 40 50, OF _ _ n t]
    by (simp add: controlInterval_default zone_update_def default_config_simps updateLED_def
        no_flags_def)
qed

lemma loop_stop_after_hold_default:
  "loop_body default_config
     \<lparr> armed = True, armStart = 1000, disableStart = 0, lastControlUpdate = 1511,
       lastLED = 1511, ledState = False, virtualPos = 0, enablePin = False, ledPin = False \<rparr>
     1521 0 0 = Some
    (\<lparr> armed = True, armStart = 1000, disableStart = 1521, lastControlUpdate = 1521,
       lastLED = 1511, ledState = False, virtualPos = 0, enablePin = False, ledPin = False \<rparr>,
     [StepperRun, DigitalWriteLed False])"
  using loop_stop_start [of "\<lparr> armed = True, armStart = 1000, disableStart = 0, lastControlUpdate = 1511,
       lastLED = 1511, ledState = False, virtualPos = 0, enablePin = False, ledPin = False \<rparr>" default_config 1521 0 0 0 0]
  by (simp add: controlInterval_default normalizeADC_default_low scale_counts_0
      default_config_simps)

lemma reachable_default_states:
  "reachable default_config
     \<lparr> armed = True, armStart = 1000, disableStart = 1501, lastControlUpdate = 1501,
       lastLED = 1000, ledState = True, virtualPos = 0, enablePin = True, ledPin = False \<rparr>"
  "reachable default_config
     \<lparr> armed = True, armStart = 1000, disableStart = 0, lastControlUpdate = 1511,
       lastLED = 1511, ledState = False, virtualPos = 0, enablePin = False, ledPin = False \<rparr>"
  "reachable default_config
     \<lparr> armed = True, armStart = 1000, disableStart = 1521, lastControlUpdate = 1521,
       lastLED = 1511, ledState = False, virtualPos = 0, enablePin = False, ledPin = False \<rparr>"
proof -
  have "reachable default_config
     \<lparr> armed = True, armStart = 1000, disableStart = 0, lastControlUpdate = 0,
       lastLED = 1000, ledState = True, virtualPos = 0, enablePin = True, ledPin = False \<rparr>"
    using reachable_run [OF reachable_init run_arm_default] .
  from reachable_loop [OF this loop_stop_after_arming_default]
  show b: "reachable default_config
     \<lparr> armed = True, armStart = 1000, disableStart = 1501, lastControlUpdate = 1501,
       lastLED = 1000, ledState = True, virtualPos = 0, enablePin = True, ledPin = False \<rparr>" .
  from reachable_loop [OF b loop_hold_default]
  show h: "reachable default_config
     \<lparr> armed = True, armStart = 1000, disableStart = 0, lastControlUpdate = 1511,
       lastLED = 1511, ledState = False, virtualPos = 0, enablePin = False, ledPin = False \<rparr>" .
  from reachable_loop [OF h loop_stop_after_hold_default]
  show "reachable default_config
     \<lparr> armed = True, armStart = 1000, disableStart = 1521, lastControlUpdate = 1521,
       lastLED = 1511, ledState = False, virtualPos = 0, enablePin = False, ledPin = False \<rparr>" .
qed

lemma loop_stop_returns:
  assumes "armed s" "scaledADC_of cfg filt = Some k" "k \<le> ANALOG_DEADBAND_COUNTS cfg"
  shows "\<exists>s' es. loop_body cfg s now raw filt = Some (s', es)"
proof (cases "controlInterval cfg \<le> now - lastControlUpdate s")
  case True
  from assms(2) obtain u where u: "normalizeADC cfg filt = Fin u" "scale_counts u = Some k"
    by (rule scaledADC_of_Some)
  show ?thesis
    using assms(3) unfolding loop_tick [OF assms(1) True u]
    by (simp add: zone_update_def Let_def updateLED_def no_flags_def)
next
  case False
  then have "now - lastControlUpdate s < controlInterval cfg" by simp
  from loop_idle [OF assms(1) this] show ?thesis by simp
qed

text \<open>C2, as stated, fails: the drive is not enabled in every armed state whose zone
  is STOP with the disable delay not elapsed. The iteration that arms still writes ENABLE
  HIGH, and a control update in the STOP zone never writes it LOW. From the state after
  \<open>setup()\<close>, with the pedal at rest: the controller arms at 1500 ms; the control update
  at 1501 ms classifies STOP and starts the disable timer (0 ms elapsed); the controller is
  armed and the ENABLE pin is HIGH (drive disabled).\<close>

theorem disabled_after_arming_counterexample:
  "run default_config init_state [(1000, 0, 0), (1500, 0, 0), (1501, 0, 0)] = Some
     \<lparr> armed = True, armStart = 1000, disableStart = 1501, lastControlUpdate = 1501,
       lastLED = 1000, ledState = True, virtualPos = 0, enablePin = True, ledPin = False \<rparr>"
proof -
  have "run default_config init_state ([(1000, 0, 0), (1500, 0, 0)] @ [(1501, 0, 0)]) = Some
     \<lparr> armed = True, armStart = 1000, disableStart = 1501, lastControlUpdate = 1501,
       lastLED = 1000, ledState = True, virtualPos = 0, enablePin = True, ledPin = False \<rparr>"
    unfolding run_append run_arm_default by (simp add: loop_stop_after_arming_default)
  then show ?thesis by simp
qed

text \<open>C2, amended: in every reachable state the drive is enabled (ENABLE LOW) only if
  the controller is armed. An unarmed iteration calls \<open>stepper.stop()\<close>, writes ENABLE
  HIGH and, besides the LED, does nothing else, whatever the pedal value. An armed
  iteration that returns leaves the ENABLE level as it was when no control update is due;
  when one is due it ends with the drive enabled if the zone is not STOP, with the drive
  disabled if the zone is STOP and the disable timer is set and has reached
  \<open>DISABLE_DELAY_MS\<close>, and with the ENABLE level unchanged if the zone is STOP and the
  timer is unset or has not reached the delay.\<close>

theorem drive_enable_invariant:
  assumes "reachable cfg s"
  shows "(\<not> enablePin s \<longrightarrow> armed s) \<and>
    (\<not> armed s \<longrightarrow>
       (\<exists>s' led. loop_body cfg s now rawADC filteredADC
                    = Some (s', [StepperStop, DigitalWriteEnable True] @ led) \<and>
          enablePin s' \<and> (led = [] \<or> (\<exists>b. led = [DigitalWriteLed b])))) \<and>
    (armed s \<and> loop_body cfg s now rawADC filteredADC = Some (s', es) \<longrightarrow>
       (now - lastControlUpdate s < controlInterval cfg \<longrightarrow> enablePin s' = enablePin s) \<and>
       (controlInterval cfg \<le> now - lastControlUpdate s \<and>
        scaledADC_of cfg filteredADC = Some scaledADC \<longrightarrow>
          (ANALOG_DEADBAND_COUNTS cfg < scaledADC \<longrightarrow> \<not> enablePin s') \<and>
          (scaledADC \<le> ANALOG_DEADBAND_COUNTS cfg \<and> disableStart s \<noteq> 0 \<and>
           word_of_int (DISABLE_DELAY_MS cfg) \<le> now - disableStart s \<longrightarrow> enablePin s') \<and>
          (scaledADC \<le> ANALOG_DEADBAND_COUNTS cfg \<and>
           (disableStart s = 0 \<or> now - disableStart s < word_of_int (DISABLE_DELAY_MS cfg)) \<longrightarrow>
             enablePin s' = enablePin s)))"
proof (intro conjI impI; (elim conjE)?)
  assume "\<not> enablePin s"
  with assms show "armed s" by (rule reachable_enabled_armed)
next
  assume "\<not> armed s"
  then show "\<exists>s' led. loop_body cfg s now rawADC filteredADC
                    = Some (s', [StepperStop, DigitalWriteEnable True] @ led) \<and>
          enablePin s' \<and> (led = [] \<or> (\<exists>b. led = [DigitalWriteLed b]))"
    using arming_step_effects [of cfg s now rawADC] by (simp add: loop_unarmed)
next
  assume "armed s" "loop_body cfg s now rawADC filteredADC = Some (s', es)"
    "now - lastControlUpdate s < controlInterval cfg"
  then show "enablePin s' = enablePin s"
    using loop_idle [of s now cfg rawADC filteredADC] by auto
next
  assume a: "armed s" "loop_body cfg s now rawADC filteredADC = Some (s', es)"
    "controlInterval cfg \<le> now - lastControlUpdate s"
    "scaledADC_of cfg filteredADC = Some scaledADC"
    "ANALOG_DEADBAND_COUNTS cfg < scaledADC"
  from a(4) obtain u where
    u: "normalizeADC cfg filteredADC = Fin u" "scale_counts u = Some scaledADC"
    by (rule scaledADC_of_Some)
  from loop_leave_stop [OF a(1,3) u a(5,2)] show "\<not> enablePin s'" by simp
next
  assume a: "armed s" "loop_body cfg s now rawADC filteredADC = Some (s', es)"
    "controlInterval cfg \<le> now - lastControlUpdate s"
    "scaledADC_of cfg filteredADC = Some scaledADC"
    "scaledADC \<le> ANALOG_DEADBAND_COUNTS cfg" "disableStart s \<noteq> 0"
    "word_of_int (DISABLE_DELAY_MS cfg) \<le> now - disableStart s"
  from loop_stop_enable [OF a(1,3,4,5,2)] a(6,7) show "enablePin s'" by simp
next
  assume a: "armed s" "loop_body cfg s now rawADC filteredADC = Some (s', es)"
    "controlInterval cfg \<le> now - lastControlUpdate s"
    "scaledADC_of cfg filteredADC = Some scaledADC"
    "scaledADC \<le> ANALOG_DEADBAND_COUNTS cfg"
    "disableStart s = 0 \<or> now - disableStart s < word_of_int (DISABLE_DELAY_MS cfg)"
  from loop_stop_enable [OF a(1,3,4,5,2)] a(6) show "enablePin s' = enablePin s"
    by (auto simp: not_le [symmetric])
qed

theorem drive_enable_invariant_witness:
  "reachable default_config init_state \<and> \<not> armed init_state \<and>
   (\<exists>s' led. loop_body default_config init_state 1000 1023 1010
                = Some (s', [StepperStop, DigitalWriteEnable True] @ led) \<and> enablePin s') \<and>
   reachable default_config
     \<lparr> armed = True, armStart = 1000, disableStart = 1501, lastControlUpdate = 1501,
       lastLED = 1000, ledState = True, virtualPos = 0, enablePin = True, ledPin = False \<rparr> \<and>
   controlInterval default_config \<le> 1511 - 1501 \<and>
   scaledADC_of default_config 50 = Some 40 \<and> ANALOG_DEADBAND_COUNTS default_config < 40 \<and>
   loop_body default_config
     \<lparr> armed = True, armStart = 1000, disableStart = 1501, lastControlUpdate = 1501,
       lastLED = 1000, ledState = True, virtualPos = 0, enablePin = True, ledPin = False \<rparr>
     1511 50 50 = Some
    (\<lparr> armed = True, armStart = 1000, disableStart = 0, lastControlUpdate = 1511,
       lastLED = 1511, ledState = False, virtualPos = 0, enablePin = False, ledPin = False \<rparr>,
     [DigitalWriteEnable False, StepperMoveToCurrentPosition, StepperRun, DigitalWriteLed False]) \<and>
   \<not> enablePin
     \<lparr> armed = True, armStart = 1000, disableStart = 0, lastControlUpdate = 1511,
       lastLED = 1511, ledState = False, virtualPos = 0, enablePin = False, ledPin = False \<rparr> \<and>
   reachable default_config
     \<lparr> armed = True, armStart = 1000, disableStart = 0, lastControlUpdate = 1511,
       lastLED = 1511, ledState = False, virtualPos = 0, enablePin = False, ledPin = False \<rparr> \<and>
   armed
     \<lparr> armed = True, armStart = 1000, disableStart = 0, lastControlUpdate = 1511,
       lastLED = 1511, ledState = False, virtualPos = 0, enablePin = False, ledPin = False \<rparr> \<and>
   reachable default_config
     \<lparr> armed = True, armStart = 1000, disableStart = 1521, lastControlUpdate = 1521,
       lastLED = 1511, ledState = False, virtualPos = 0, enablePin = False, ledPin = False \<rparr> \<and>
   scaledADC_of default_config 0 = Some 0 \<and> 0 \<le> ANALOG_DEADBAND_COUNTS default_config \<and>
   controlInterval default_config \<le> 1621 - 1521 \<and>
   word_of_int (DISABLE_DELAY_MS default_config) \<le> (1621 :: ulong) - 1521 \<and>
   (\<exists>s' es. loop_body default_config
        \<lparr> armed = True, armStart = 1000, disableStart = 1521, lastControlUpdate = 1521,
       lastLED = 1511, ledState = False, virtualPos = 0, enablePin = False, ledPin = False \<rparr>
        1621 0 0 = Some (s', es) \<and> enablePin s') \<and>
   controlInterval default_config \<le> 1531 - 1521 \<and>
   (1531 :: ulong) - 1521 < word_of_int (DISABLE_DELAY_MS default_config) \<and>
   (\<exists>s' es. loop_body default_config
        \<lparr> armed = True, armStart = 1000, disableStart = 1521, lastControlUpdate = 1521,
       lastLED = 1511, ledState = False, virtualPos = 0, enablePin = False, ledPin = False \<rparr>
        1531 0 0 = Some (s', es) \<and> \<not> enablePin s') \<and>
   (1522 :: ulong) - 1521 < controlInterval default_config \<and>
   (\<exists>s' es. loop_body default_config
        \<lparr> armed = True, armStart = 1000, disableStart = 1521, lastControlUpdate = 1521,
       lastLED = 1511, ledState = False, virtualPos = 0, enablePin = False, ledPin = False \<rparr>
        1522 1023 127 = Some (s', es) \<and> \<not> enablePin s')"
proof -
  let ?b = "\<lparr> armed = True, armStart = 1000, disableStart = 1501, lastControlUpdate = 1501,
       lastLED = 1000, ledState = True, virtualPos = 0, enablePin = True, ledPin = False \<rparr>"
  let ?h = "\<lparr> armed = True, armStart = 1000, disableStart = 0, lastControlUpdate = 1511,
       lastLED = 1511, ledState = False, virtualPos = 0, enablePin = False, ledPin = False \<rparr>"
  let ?h2 = "\<lparr> armed = True, armStart = 1000, disableStart = 1521, lastControlUpdate = 1521,
       lastLED = 1511, ledState = False, virtualPos = 0, enablePin = False, ledPin = False \<rparr>"
  note rb = reachable_default_states(1) and rh = reachable_default_states(2)
    and rh2 = reachable_default_states(3)
  have k0: "scaledADC_of default_config 0 = Some 0" by (simp add: scaledADC_of_default)
  have k50: "scaledADC_of default_config 50 = Some 40"
    by (rule scaledADC_of_default(1))
  have c: "controlInterval default_config \<le> 1511 - 1501"
    "ANALOG_DEADBAND_COUNTS default_config < 40" "0 \<le> ANALOG_DEADBAND_COUNTS default_config"
    "controlInterval default_config \<le> 1621 - 1521"
    "word_of_int (DISABLE_DELAY_MS default_config) \<le> (1621 :: ulong) - 1521"
    "controlInterval default_config \<le> 1531 - 1521"
    "(1531 :: ulong) - 1521 < word_of_int (DISABLE_DELAY_MS default_config)"
    "(1522 :: ulong) - 1521 < controlInterval default_config"
    by (simp_all add: controlInterval_default default_config_simps)
  have i0: "\<not> armed init_state" by (simp add: init_state_def)
  from drive_enable_invariant [OF reachable_init, where now = 1000 and rawADC = 1023 and filteredADC = 1010] i0
  have p0: "\<exists>s' led. loop_body default_config init_state 1000 1023 1010
                = Some (s', [StepperStop, DigitalWriteEnable True] @ led) \<and> enablePin s'"
    by blast
  from drive_enable_invariant [OF rb, where now = 1511 and rawADC = 50 and filteredADC = 50 and s' = ?h and scaledADC = 40] loop_hold_default c(1,2) k50
  have p1: "\<not> enablePin ?h" by simp
  from drive_enable_invariant [OF rh] p1 have p2: "armed ?h" by blast
  have ah2: "armed ?h2" by simp
  from loop_stop_returns [OF ah2 k0 c(3), of 1621 0] obtain s3 es3 where
    l3: "loop_body default_config ?h2 1621 0 0 = Some (s3, es3)" by blast
  from drive_enable_invariant [OF rh2, where now = 1621 and rawADC = 0 and filteredADC = 0 and s' = s3 and es = es3 and scaledADC = 0] l3 c(3,4,5) k0
  have "enablePin s3" by simp
  with l3 have p3: "\<exists>s' es. loop_body default_config ?h2 1621 0 0 = Some (s', es) \<and> enablePin s'"
    by blast
  from loop_stop_returns [OF ah2 k0 c(3), of 1531 0] obtain s4 es4 where
    l4: "loop_body default_config ?h2 1531 0 0 = Some (s4, es4)" by blast
  from drive_enable_invariant [OF rh2, where now = 1531 and rawADC = 0 and filteredADC = 0 and s' = s4 and es = es4 and scaledADC = 0] l4 c(3,6,7) k0
  have "\<not> enablePin s4" by simp
  with l4 have p4: "\<exists>s' es. loop_body default_config ?h2 1531 0 0 = Some (s', es) \<and> \<not> enablePin s'"
    by blast
  from loop_idle [of ?h2 1522 default_config 1023 127] c(8) obtain s5 es5 where
    l5: "loop_body default_config ?h2 1522 1023 127 = Some (s5, es5)" by simp
  from drive_enable_invariant [OF rh2, where now = 1522 and rawADC = 1023 and filteredADC = 127 and s' = s5 and es = es5] l5 c(8)
  have "\<not> enablePin s5" by simp
  with l5 have p5: "\<exists>s' es. loop_body default_config ?h2 1522 1023 127 = Some (s', es) \<and> \<not> enablePin s'"
    by blast
  show ?thesis
    by (intro conjI reachable_init i0 p0 rb c k50 loop_hold_default p1 rh p2 rh2 k0 p3 p4 p5)
qed

end
